theory Spec2Isabelle
  imports Complex_Main "HOL-Library.Multiset" "HOL-Library.Word"
begin

section \<open>Common types\<close>

text \<open>
  The render pipeline works on single precision floats. A float is modelled by the real
  number it denotes; not-a-number values and infinities are outside the model. Where the
  code only compares floats and takes minima and maxima, this is exact. The quantization
  of the shadow camera depends on the rounding of every operation; there the arithmetic
  is that of binary32, defined below. Pointers to scene objects (drawables, lights,
  textures, pipeline states) are modelled by natural numbers naming the object; a null
  pointer is \<open>None\<close>.
\<close>

type_synonym float = real
type_synonym Vector3 = "float \<times> float \<times> float"
type_synonym Quaternion = "float \<times> float \<times> float \<times> float"
type_synonym FloatRange = "float \<times> float"
type_synonym IntVector2 = "int \<times> int"
type_synonym IntRect = "int \<times> int \<times> int \<times> int"

datatype LightType = LIGHT_DIRECTIONAL | LIGHT_SPOT | LIGHT_POINT

datatype LightImportance = LI_AUTO | LI_IMPORTANT | LI_NOT_IMPORTANT

datatype DrawableFlag = DRAWABLE_GEOMETRY | DRAWABLE_LIGHT | DRAWABLE_ZONE | DRAWABLE_GEOMETRY2D

datatype UpdateGeometryType = UPDATE_NONE | UPDATE_MAIN_THREAD | UPDATE_WORKER_THREAD

datatype GeometryRenderFlag = Visible | Lit | ForwardLit

text \<open>
  Modelled from the spec: the two constants are declared in \<open>GraphicsDefs.h\<close>, outside the
  sources at hand. A cascade table has four entries, and a point light has six splits, one
  for each face of the cube (the array of directions in \<open>SetupShadowCameras\<close> has six
  entries).
\<close>

definition MAX_CASCADE_SPLITS :: nat where
  "MAX_CASCADE_SPLITS = 4"

definition MAX_CUBEMAP_FACES :: nat where
  "MAX_CUBEMAP_FACES = 6"

section \<open>Drawables and lights\<close>

text \<open>
  A source batch of a drawable: geometry type, geometry and material (null when the default
  material is to be used).
\<close>

record SourceBatch =
  geometryType :: nat
  geometry :: "nat option"
  material :: "nat option"

text \<open>
  A technique maps a pass index to its pass, null when the technique has no such pass.
\<close>

type_synonym Technique = "nat \<Rightarrow> nat option"

text \<open>The depth bias parameters of a shadow casting light.\<close>

record BiasParameters =
  constantBias :: float
  slopeScaledBias :: float
  normalOffset :: float

text \<open>
  What the pipeline reads from a drawable, after \<open>UpdateBatches\<close> computed its distance
  from the camera. A light is a drawable: the fields from \<open>lightType\<close> on are those of
  the \<open>Light\<close> subclass and are read only after a cast to it. Bit masks are 32 bit
  unsigned. Flag sets are modelled as sets of flags, the empty set being 0.
\<close>

record Drawable =
  ID :: nat
  drawableIndex :: nat
  drawableFlags :: "DrawableFlag set"
  drawDistance :: float
  shadowDistance :: float
  distance :: float
  worldBoundingBox :: "Vector3 \<times> Vector3"
  updateGeometryType :: UpdateGeometryType
  batches :: "SourceBatch list"
  castShadows :: bool
  shadowMaskInZone :: "32 word"
  blendLightProbes :: bool
  lightType :: LightType
  lightMask :: "32 word"
  lightMaskEffective :: "32 word"
  effectiveColorIsBlack :: bool
  lightImportance :: LightImportance
  intensityDivisor :: float
  numShadowSplits :: int
  cascadeSplits :: "float list"
  range :: float
  lightFov :: float
  lightAspectRatio :: float
  shadowNearFarRatio :: float
  worldPosition :: Vector3
  worldRotation :: Quaternion
  shapeTexture :: "nat option"
  specularIntensity :: float
  shadowBias :: BiasParameters

type_synonym Light = Drawable

text \<open>A batch of a scene pass, with the pipeline state it resolved to (null when none).\<close>

record BaseSceneBatch =
  batchDrawableIndex :: nat
  batchSourceBatchIndex :: nat
  batchGeometryType :: nat
  batchDrawable :: Drawable
  batchGeometry :: "nat option"
  batchMaterial :: nat
  batchPass :: nat
  batchPipelineState :: "nat option"

section \<open>Single precision arithmetic\<close>

text \<open>
  The binary32 format: a finite number is a whole multiple of a power of two, with a
  multiplier below \<open>2 ^ 24\<close> in absolute value and an exponent of the power from -149.
  For a nonzero real \<open>x\<close> the spacing of the numbers around it is \<open>binary32Ulp x\<close>.
  Every arithmetic operation rounds its exact result to the nearest number of the format,
  a tie to the one with the even multiplier; a result beyond the largest finite number is
  infinite, which is \<open>None\<close> here, as are a division by zero and the square root of a
  negative number. The code is taken to evaluate each operation in binary32, without
  extended precision.
\<close>

definition roundHalfEven :: "real \<Rightarrow> int" where
  "roundHalfEven y =
     (let f = \<lfloor>y\<rfloor>; d = y - of_int f
      in if d < 1 / 2 then f else if d > 1 / 2 then f + 1 else if even f then f else f + 1)"

definition binary32Ulp :: "real \<Rightarrow> real" where
  "binary32Ulp x = 2 powi (max \<lfloor>log 2 \<bar>x\<bar>\<rfloor> (- 126) - 23)"

definition roundBinary32 :: "real \<Rightarrow> float option" where
  "roundBinary32 x =
     (if x = 0 then Some 0
      else
        let r = of_int (roundHalfEven (x / binary32Ulp x)) * binary32Ulp x
        in if \<bar>r\<bar> < 2 ^ 128 then Some r else None)"

text \<open>
  The operations \<open>/\<close>, \<open>*\<close> and \<open>-\<close> on floats and the library functions \<open>sqrtf\<close> and
  \<open>ceilf\<close>. The result of \<open>ceilf\<close> on a finite float is exact.
\<close>

definition float_div :: "float \<Rightarrow> float \<Rightarrow> float option" where
  "float_div a b = (if b = 0 then None else roundBinary32 (a / b))"

definition float_mul :: "float \<Rightarrow> float \<Rightarrow> float option" where
  "float_mul a b = roundBinary32 (a * b)"

definition float_sub :: "float \<Rightarrow> float \<Rightarrow> float option" where
  "float_sub a b = roundBinary32 (a - b)"

definition sqrtf :: "float \<Rightarrow> float option" where
  "sqrtf a = (if a < 0 then None else roundBinary32 (sqrt a))"

definition ceilf :: "float \<Rightarrow> float" where
  "ceilf a = of_int \<lceil>a\<rceil>"

section \<open>Light processor\<close>

text \<open>A shadow map region: the texture (null when allocation failed) and the rectangle.\<close>

record ShadowMap =
  texture :: "nat option"
  region :: IntRect

text \<open>
  The shadow camera of a split together with the scene node that carries it. The node is
  oriented either by a rotation (\<open>SetTransform\<close>) or by a direction (\<open>SetDirection\<close>).
\<close>

datatype Orientation = Rotation Quaternion | Direction Vector3

record Camera =
  position :: Vector3
  orientation :: Orientation
  nearClip :: float
  farClip :: float
  fov :: float
  aspectRatio :: float
  orthographic :: bool
  zoom :: float

record SceneLightShadowSplit =
  shadowCamera :: "Camera option"
  zRange :: FloatRange
  shadowCasters :: "Drawable list"
  shadowCasterBatches :: "BaseSceneBatch list"
  shadowMap :: ShadowMap

text \<open>
  The light processor of the implementation file: the light, its splits, the lit
  geometries, the candidates for shadow casters, the flag \<open>hasShadow_\<close> that
  \<open>BeginFrame\<close> sets from the request for a shadow, and the number \<open>numSplits_\<close> of
  splits that \<open>SetupShadowCameras\<close> set up. The header of the class at hand is of a
  later revision, with other members (\<open>numActiveSplits_\<close>, no \<open>hasShadow_\<close>, no
  \<open>SetShadowMap\<close>); its accessors are not part of this model.
\<close>

record LightProcessor =
  light :: Light
  splits :: "SceneLightShadowSplit list"
  lpLitGeometries :: "Drawable list"
  lpTempShadowCasters :: "Drawable list"
  hasShadow :: bool
  numSplits :: nat
  shadowMapSplitSize :: int
  shadowMapSize :: IntVector2
  lpShadowMap :: ShadowMap
  pipelineStateHashDirty :: bool

subsection \<open>BeginFrame\<close>


subsection \<open>RecalculatePipelineStateHash\<close>

text \<open>
  The flags that \<open>RecalculatePipelineStateHash\<close> packs into the hash before it combines
  the hash with the bias parameters: the light type in bits 0 and 1, the shadow flag in
  bit 2, then the presence of a shape texture, of specular light and of a normal offset.
  \<open>lightTypeValue\<close> is the number of a light type and \<open>CombineHash\<close> the hash
  combinator of the mathematics library.
\<close>

definition pipelineStateHashFlags :: "(LightType \<Rightarrow> 32 word) \<Rightarrow> LightProcessor \<Rightarrow> 32 word" where
  "pipelineStateHashFlags lightTypeValue lp =
     or (or (or (or (and (lightTypeValue (lightType (light lp))) 3)
                    (push_bit 2 (of_bool (hasShadow lp))))
                (push_bit 3 (of_bool (shapeTexture (light lp) \<noteq> None))))
            (push_bit 4 (of_bool (specularIntensity (light lp) > 0))))
        (push_bit 5 (of_bool (normalOffset (shadowBias (light lp)) > 0)))"

definition RecalculatePipelineStateHash ::
  "(32 word \<Rightarrow> float \<Rightarrow> 32 word) \<Rightarrow> (LightType \<Rightarrow> 32 word) \<Rightarrow> LightProcessor \<Rightarrow> 32 word" where
  "RecalculatePipelineStateHash CombineHash lightTypeValue lp =
     CombineHash
       (CombineHash (pipelineStateHashFlags lightTypeValue lp)
          (constantBias (shadowBias (light lp))))
       (slopeScaledBias (shadowBias (light lp)))"

subsection \<open>FinalizeShadowMap\<close>

definition GetSplitsGridSize :: "LightProcessor \<Rightarrow> IntVector2" where
  "GetSplitsGridSize lp =
     (if numSplits lp = 1 then (1, 1)
      else if numSplits lp = 2 then (2, 1)
      else if numSplits lp < 6 then (2, 2)
      else (3, 2))"

definition hasShadowCaster :: "SceneLightShadowSplit \<Rightarrow> bool" where
  "hasShadowCaster split = (shadowCasters split \<noteq> [])"

definition FinalizeShadowMap :: "LightProcessor \<Rightarrow> LightProcessor" where
  "FinalizeShadowMap lp =
     (if \<not> hasShadow lp then lp
      else if \<not> list_ex hasShadowCaster (take (numSplits lp) (splits lp))
      then lp\<lparr>hasShadow := False\<rparr>
      else
        let splitSize = (if lightType (light lp) \<noteq> LIGHT_POINT then 512 else 256);
            lp1 = lp\<lparr>shadowMapSplitSize := splitSize\<rparr>
        in lp1\<lparr>shadowMapSize :=
              (splitSize * fst (GetSplitsGridSize lp1), splitSize * snd (GetSplitsGridSize lp1))\<rparr>)"

subsection \<open>SetShadowMap\<close>



subsection \<open>SetupShadowCameras\<close>

text \<open>
  \<open>None\<close> is an access outside \<open>splits_\<close> or outside the cascade table, which the
  C++ code does not define. \<open>newCamera\<close> is a freshly constructed camera component.
\<close>

definition GetOrCreateShadowCamera :: "Camera \<Rightarrow> nat \<Rightarrow> LightProcessor \<Rightarrow> LightProcessor option" where
  "GetOrCreateShadowCamera newCamera split lp =
     (if split < length (splits lp) then
        let s = splits lp ! split;
            camera = (case shadowCamera s of None \<Rightarrow> newCamera | Some c \<Rightarrow> c)
        in Some (lp\<lparr>splits := (splits lp)
                   [split := s\<lparr>shadowCamera := Some (camera\<lparr>orthographic := False, zoom := 1\<rparr>)\<rparr>]\<rparr>)
      else None)"

definition updateSplit ::
  "nat \<Rightarrow> (SceneLightShadowSplit \<Rightarrow> SceneLightShadowSplit) \<Rightarrow> LightProcessor \<Rightarrow> LightProcessor" where
  "updateSplit i f lp = lp\<lparr>splits := (splits lp)[i := f (splits lp ! i)]\<rparr>"

definition updateShadowCamera :: "(Camera \<Rightarrow> Camera) \<Rightarrow> SceneLightShadowSplit \<Rightarrow> SceneLightShadowSplit" where
  "updateShadowCamera f s = s\<lparr>shadowCamera := map_option f (shadowCamera s)\<rparr>"

text \<open>
  The loop over the cascade table of a directional light, from index \<open>i\<close> with the
  running near bound \<open>nearSplit\<close>; \<open>n\<close> is the requested number of splits and
  \<open>setupDirLightShadowCamera\<close> the geometric set-up of the split's camera.
\<close>

function dirLightSplits ::
  "Camera \<Rightarrow> (SceneLightShadowSplit \<Rightarrow> SceneLightShadowSplit) \<Rightarrow> float \<Rightarrow> float list \<Rightarrow>
   nat \<Rightarrow> nat \<Rightarrow> float \<Rightarrow> LightProcessor \<Rightarrow> LightProcessor option" where
  "dirLightSplits newCamera setupDirLightShadowCamera cullFarClip cascade n i nearSplit lp =
     (if i < n then
        if nearSplit > cullFarClip then Some lp
        else if i \<ge> length cascade then None
        else
          let farSplit = min cullFarClip (cascade ! i) in
          if farSplit \<le> nearSplit then Some lp
          else
            (case GetOrCreateShadowCamera newCamera i lp of
               None \<Rightarrow> None
             | Some lp1 \<Rightarrow>
                 let lp2 = updateSplit i (\<lambda>s. s\<lparr>zRange := (nearSplit, farSplit)\<rparr>) lp1;
                     lp3 = updateSplit i setupDirLightShadowCamera lp2
                 in dirLightSplits newCamera setupDirLightShadowCamera cullFarClip cascade n
                      (Suc i) farSplit (lp3\<lparr>numSplits := numSplits lp3 + 1\<rparr>))
      else Some lp)"
  by pat_completeness auto
termination
  by (relation "measure (\<lambda>(nc, su, far, cs, n, i, ns, lp). n - i)") auto

declare dirLightSplits.simps [simp del]

definition cubeFaceDirections :: "Vector3 list" where
  "cubeFaceDirections =
     [(1, 0, 0), (-1, 0, 0), (0, 1, 0), (0, -1, 0), (0, 0, 1), (0, 0, -1)]"

fun pointLightSplits :: "Camera \<Rightarrow> nat list \<Rightarrow> LightProcessor \<Rightarrow> LightProcessor option" where
  "pointLightSplits newCamera [] lp = Some lp"
| "pointLightSplits newCamera (i # rest) lp =
     (case GetOrCreateShadowCamera newCamera i lp of
        None \<Rightarrow> None
      | Some lp1 \<Rightarrow>
          pointLightSplits newCamera rest
            (updateSplit i (updateShadowCamera (\<lambda>c. c
               \<lparr>position := worldPosition (light lp),
                orientation := Direction (cubeFaceDirections ! i),
                nearClip := shadowNearFarRatio (light lp) * range (light lp),
                farClip := range (light lp),
                fov := 90,
                aspectRatio := 1\<rparr>)) lp1))"

text \<open>
  The loop bound of the directional case: the \<open>int\<close> returned by
  \<open>GetNumShadowSplits\<close> is compared with an \<open>unsigned\<close> counter, so it is converted
  to 32 bit unsigned.
\<close>

definition requestedSplits :: "Light \<Rightarrow> nat" where
  "requestedSplits l = nat (numShadowSplits l mod 2 ^ 32)"

definition SetupShadowCameras ::
  "Camera \<Rightarrow> (SceneLightShadowSplit \<Rightarrow> SceneLightShadowSplit) \<Rightarrow> float \<Rightarrow> float \<Rightarrow>
   LightProcessor \<Rightarrow> LightProcessor option" where
  "SetupShadowCameras newCamera setupDirLightShadowCamera cullNearClip cullFarClip lp =
     (case lightType (light lp) of
        LIGHT_DIRECTIONAL \<Rightarrow>
          dirLightSplits newCamera setupDirLightShadowCamera cullFarClip
            (cascadeSplits (light lp)) (requestedSplits (light lp)) 0 cullNearClip
            (lp\<lparr>numSplits := 0\<rparr>)
      | LIGHT_SPOT \<Rightarrow>
          (case GetOrCreateShadowCamera newCamera 0 lp of
             None \<Rightarrow> None
           | Some lp1 \<Rightarrow>
               Some ((updateSplit 0 (updateShadowCamera (\<lambda>c. c
                  \<lparr>position := worldPosition (light lp),
                   orientation := Rotation (worldRotation (light lp)),
                   nearClip := shadowNearFarRatio (light lp) * range (light lp),
                   farClip := range (light lp),
                   fov := lightFov (light lp),
                   aspectRatio := lightAspectRatio (light lp)\<rparr>)) lp1)
                 \<lparr>numSplits := 1\<rparr>))
      | LIGHT_POINT \<Rightarrow>
          (case pointLightSplits newCamera [0..<MAX_CUBEMAP_FACES] lp of
             None \<Rightarrow> None
           | Some lp1 \<Rightarrow> Some (lp1\<lparr>numSplits := MAX_CUBEMAP_FACES\<rparr>)))"

text \<open>
  The split count of a directional light as the loop computes it, and as a count over the
  whole table. Entry \<open>i\<close> of the table has the near bound \<open>cascadeNear\<close>: the near clip
  of the camera for the first entry, the far bound of the entry before it otherwise.
\<close>

definition cascadeFar :: "float \<Rightarrow> float list \<Rightarrow> nat \<Rightarrow> float" where
  "cascadeFar cullFarClip cascade i = min cullFarClip (cascade ! i)"

definition cascadeNear :: "float \<Rightarrow> float \<Rightarrow> float list \<Rightarrow> nat \<Rightarrow> float" where
  "cascadeNear cullNearClip cullFarClip cascade i =
     (if i = 0 then cullNearClip else cascadeFar cullFarClip cascade (i - 1))"

definition splitInRange :: "float \<Rightarrow> float \<Rightarrow> float list \<Rightarrow> nat \<Rightarrow> bool" where
  "splitInRange cullNearClip cullFarClip cascade i =
     (cascadeNear cullNearClip cullFarClip cascade i \<le> cullFarClip \<and>
      cascadeNear cullNearClip cullFarClip cascade i < cascadeFar cullFarClip cascade i)"

definition leadingSplitsInRange :: "float \<Rightarrow> float \<Rightarrow> float list \<Rightarrow> nat \<Rightarrow> nat" where
  "leadingSplitsInRange cullNearClip cullFarClip cascade n =
     length (takeWhile (splitInRange cullNearClip cullFarClip cascade) [0..<n])"

definition countSplitsInRange :: "float \<Rightarrow> float \<Rightarrow> float list \<Rightarrow> nat \<Rightarrow> nat" where
  "countSplitsInRange cullNearClip cullFarClip cascade n =
     length (filter (splitInRange cullNearClip cullFarClip cascade) [0..<n])"

definition maxSplitsOfType :: "LightType \<Rightarrow> nat" where
  "maxSplitsOfType t =
     (case t of LIGHT_DIRECTIONAL \<Rightarrow> MAX_CASCADE_SPLITS | LIGHT_SPOT \<Rightarrow> 1
      | LIGHT_POINT \<Rightarrow> MAX_CUBEMAP_FACES)"

section \<open>Shadow camera of a directional light\<close>

record FocusParameters =
  focus :: bool
  nonUniform :: bool
  autoSize :: bool
  quantize :: float
  minView :: float

text \<open>The view box in light space; only its extent in x and y is used.\<close>

record ViewBox =
  minX :: float
  minY :: float
  maxX :: float
  maxY :: float

subsection \<open>QuantizeDirLightShadowCamera: the view size\<close>

text \<open>
  The number of quantization steps, \<open>ceilf(sqrtf(size / quantize))\<close>, each operation in
  single precision.
\<close>

definition quantizeSteps :: "float \<Rightarrow> float \<Rightarrow> float option" where
  "quantizeSteps q viewSize =
     Option.bind (float_div viewSize q) (\<lambda>d. map_option ceilf (sqrtf d))"

text \<open>
  The size rounded up to that number of steps and clamped to the minimum view size:
  \<open>Max(steps * steps * quantize, minView)\<close>.
\<close>

definition quantizedSize :: "float \<Rightarrow> float \<Rightarrow> float \<Rightarrow> float option" where
  "quantizedSize q minV viewSize =
     Option.bind (quantizeSteps q viewSize) (\<lambda>n.
       Option.bind (float_mul n n) (\<lambda>nn.
         map_option (\<lambda>s. max s minV) (float_mul nn q)))"

text \<open>
  The size computation of \<open>QuantizeDirLightShadowCamera\<close>: both extents are quantized on
  their own when the size is not uniform, the larger one for both when it is uniform and
  focusing is enabled, and the size is left as it is otherwise.
\<close>

definition quantizeViewSize :: "FocusParameters \<Rightarrow> float \<times> float \<Rightarrow> (float \<times> float) option" where
  "quantizeViewSize parameters viewSize =
     (if nonUniform parameters then
        Option.bind (quantizedSize (quantize parameters) (minView parameters) (fst viewSize)) (\<lambda>x.
          map_option (\<lambda>y. (x, y))
            (quantizedSize (quantize parameters) (minView parameters) (snd viewSize)))
      else if focus parameters then
        map_option (\<lambda>x. (x, x))
          (quantizedSize (quantize parameters) (minView parameters)
             (max (fst viewSize) (snd viewSize)))
      else Some viewSize)"

text \<open>The size that \<open>QuantizeDirLightShadowCamera\<close> passes to \<open>SetOrthoSize\<close>.\<close>

definition QuantizeDirLightShadowCamera ::
  "FocusParameters \<Rightarrow> ViewBox \<Rightarrow> (float \<times> float) option" where
  "QuantizeDirLightShadowCamera parameters viewBox =
     Option.bind (float_sub (maxX viewBox) (minX viewBox)) (\<lambda>x.
       Option.bind (float_sub (maxY viewBox) (minY viewBox)) (\<lambda>y.
         quantizeViewSize parameters (x, y)))"

text \<open>
  A quantization step that is a power of two, so that products with it are exact, and a
  size that is a whole square number of steps, with a number of steps below 4096, so
  that the square is exact.
\<close>

definition isPowerOfTwo :: "float \<Rightarrow> bool" where
  "isPowerOfTwo q = (\<exists>k::int. - 100 \<le> k \<and> k \<le> 100 \<and> q = 2 powi k)"

definition onQuantizationGrid :: "float \<Rightarrow> float \<Rightarrow> bool" where
  "onQuantizationGrid q s = (\<exists>n::nat. n < 4096 \<and> s = of_nat n * of_nat n * q)"

text \<open>
  The default focus parameters of a light, with the quantization step 0.5 and the minimum
  view size 3, and the float nearest to 1.3.
\<close>

definition defaultFocus :: FocusParameters where
  "defaultFocus = \<lparr>focus = True, nonUniform = True, autoSize = True, quantize = 1 / 2, minView = 3\<rparr>"

definition quantize13 :: float where
  "quantize13 = 10905190 / 2 ^ 23"

subsection \<open>SetupDirLightShadowCamera: the frustum volume\<close>

text \<open>
  The polyhedron operations are those of the mathematics library: \<open>Define\<close> builds the
  polyhedron of a frustum, \<open>Clip\<close> clips it by a bounding box, \<open>Empty\<close> tests for a
  polyhedron without faces. The merged bounding box of the lit geometries whose depth
  range meets the split is \<open>None\<close> as long as it is not defined, that is, no box was
  merged into it.
\<close>

definition mergeLitGeometries ::
  "((Vector3 \<times> Vector3) option \<Rightarrow> Vector3 \<times> Vector3 \<Rightarrow> (Vector3 \<times> Vector3) option) \<Rightarrow>
   (FloatRange \<Rightarrow> FloatRange \<Rightarrow> bool) \<Rightarrow> (nat \<Rightarrow> FloatRange) \<Rightarrow>
   FloatRange \<Rightarrow> Drawable list \<Rightarrow> (Vector3 \<times> Vector3) option" where
  "mergeLitGeometries Merge Interset GetGeometryZRange splitZRange litGeometries =
     foldl (\<lambda>litGeometriesBox drawable.
              if Interset (GetGeometryZRange (drawableIndex drawable)) splitZRange
              then Merge litGeometriesBox (worldBoundingBox drawable)
              else litGeometriesBox)
           None litGeometries"

definition dirLightFrustumVolume ::
  "('frustum \<Rightarrow> 'poly) \<Rightarrow> ('poly \<Rightarrow> 'box \<Rightarrow> 'poly) \<Rightarrow> ('poly \<Rightarrow> bool) \<Rightarrow>
   bool \<Rightarrow> 'frustum \<Rightarrow> 'box option \<Rightarrow> 'poly" where
  "dirLightFrustumVolume Define Clip Empty focusing splitFrustum litGeometriesBox =
     (let frustumVolume = Define splitFrustum in
      if focusing then
        (case litGeometriesBox of
           None \<Rightarrow> frustumVolume
         | Some box \<Rightarrow>
             let clipped = Clip frustumVolume box
             in if Empty clipped then Define splitFrustum else clipped)
      else frustumVolume)"

text \<open>
  The volume is transformed to light space and the shadow box is fitted to it: to its
  bounding sphere when the size is uniform.
\<close>

definition dirLightShadowBox ::
  "('poly \<Rightarrow> 'poly) \<Rightarrow> ('poly \<Rightarrow> 'sbox) \<Rightarrow> ('poly \<Rightarrow> 'sbox) \<Rightarrow> bool \<Rightarrow> 'poly \<Rightarrow> 'sbox" where
  "dirLightShadowBox TransformToLightView boxOfSphere boxOfPolyhedron nonUniformSize frustumVolume =
     (let volume = TransformToLightView frustumVolume
      in if \<not> nonUniformSize then boxOfSphere volume else boxOfPolyhedron volume)"

section \<open>Drawable processor\<close>

text \<open>
  A depth range; the class \<open>FloatRange\<close> is declared outside the sources at hand. The
  empty range \<open>{}\<close> is \<open>None\<close>, a range is valid when it is not empty and its bounds
  are in order, and \<open>rangeUnion\<close> is the operator \<open>|=\<close>: the smallest range around
  both, where an invalid range counts as empty.
\<close>

definition IsValid :: "FloatRange option \<Rightarrow> bool" where
  "IsValid r = (case r of None \<Rightarrow> False | Some (a, b) \<Rightarrow> a \<le> b)"

definition rangeUnion :: "FloatRange option \<Rightarrow> FloatRange option \<Rightarrow> FloatRange option" where
  "rangeUnion r other =
     (if \<not> IsValid other then r
      else if \<not> IsValid r then other
      else Some (min (fst (the r)) (fst (the other)), max (snd (the r)) (snd (the other))))"

text \<open>The constant of the mathematics library that stands for infinity.\<close>

definition M_LARGE_VALUE :: float where
  "M_LARGE_VALUE = 100000000"

text \<open>
  A collection with one vector for each thread: \<open>PushBack\<close> appends to the vector of the
  given thread, and iteration goes through the vectors in the order of the threads.
\<close>

definition PushBack :: "nat \<Rightarrow> 'a \<Rightarrow> 'a list list \<Rightarrow> 'a list list" where
  "PushBack threadIndex x collection = collection[threadIndex := collection ! threadIndex @ [x]]"

subsection \<open>Passes\<close>

text \<open>
  A geometry batch of a pass: drawable, index of the source batch, unlit base pass, lit base
  pass and light pass.
\<close>

type_synonym GeometryBatch = "Drawable \<times> nat \<times> nat option \<times> nat option \<times> nat option"

record DrawableProcessorPass =
  needAmbient :: bool
  unlitBasePassIndex :: nat
  litBasePassIndex :: nat
  lightPassIndex :: nat
  geometryBatches :: "GeometryBatch list list"

text \<open>The result of \<open>AddBatch\<close> is the pair of \<open>added_\<close> and \<open>litAdded_\<close>.\<close>

definition AddBatch ::
  "nat \<Rightarrow> Drawable \<Rightarrow> nat \<Rightarrow> Technique \<Rightarrow> DrawableProcessorPass \<Rightarrow>
   DrawableProcessorPass \<times> bool \<times> bool" where
  "AddBatch threadIndex drawable sourceBatchIndex technique pass =
     (let unlitBasePass = technique (unlitBasePassIndex pass);
          lightPass = technique (lightPassIndex pass);
          litBasePass = (if lightPass \<noteq> None then technique (litBasePassIndex pass) else None)
      in if unlitBasePass = None then (pass, False, False)
         else (pass\<lparr>geometryBatches := PushBack threadIndex
                  (drawable, sourceBatchIndex, unlitBasePass, litBasePass, lightPass)
                  (geometryBatches pass)\<rparr>,
               True, lightPass \<noteq> None))"

subsection \<open>Cache of light processors\<close>

text \<open>
  Modelled from the spec: \<open>LightProcessorCache::GetLightProcessor\<close> is declared in the
  header and defined outside the sources at hand. The cache maps the identity of a light to
  its light processor, created on the first visibility of the light and reused afterwards.
  A processor is named by the number it got at its creation.
\<close>

record LightProcessorCache =
  cache :: "nat \<Rightarrow> nat option"
  numProcessors :: nat

definition GetLightProcessor :: "Light \<Rightarrow> LightProcessorCache \<Rightarrow> nat \<times> LightProcessorCache" where
  "GetLightProcessor l c =
     (case cache c (ID l) of
        Some processor \<Rightarrow> (processor, c)
      | None \<Rightarrow> (numProcessors c,
                 c\<lparr>cache := (cache c)(ID l \<mapsto> numProcessors c),
                   numProcessors := Suc (numProcessors c)\<rparr>))"

fun getLightProcessors :: "Light list \<Rightarrow> LightProcessorCache \<Rightarrow> nat list \<times> LightProcessorCache" where
  "getLightProcessors [] c = ([], c)"
| "getLightProcessors (l # ls) c =
     (let (p, c1) = GetLightProcessor l c;
          (ps, c2) = getLightProcessors ls c1
      in (p # ps, c2))"

subsection \<open>State\<close>

text \<open>
  The state of the drawable processor. \<open>'acc\<close> is the light accumulator of a drawable.
  The log holds the error messages with their argument.
\<close>

record 'acc DrawableProcessor =
  defaultMaterial :: nat
  materialQuality :: nat
  gi :: bool
  viewZ :: Vector3
  absViewZ :: Vector3
  viewMatrixM23 :: float
  maxVertexLights :: nat
  maxPixelLights :: nat
  passes :: "DrawableProcessorPass list"
  isDrawableUpdated :: "bool list"
  geometryFlags :: "GeometryRenderFlag set list"
  geometryZRanges :: "FloatRange list"
  geometryLighting :: "'acc list"
  sceneZRangeTemp :: "FloatRange option list"
  sceneZRange :: "FloatRange option"
  visibleGeometries :: "Drawable list list"
  threadedGeometryUpdates :: "Drawable list list"
  nonThreadedGeometryUpdates :: "Drawable list list"
  visibleLightsTemp :: "Light list list"
  visibleLights :: "Light list"
  lightProcessors :: "nat list"
  lightProcessorCache :: LightProcessorCache
  queuedDrawableUpdates :: "Drawable list list"
  log :: "(string \<times> nat) list"

subsection \<open>OnUpdateBegin\<close>

text \<open>\<open>resize\<close> of a vector keeps the leading elements and fills up with the default.\<close>

definition resize :: "nat \<Rightarrow> 'a \<Rightarrow> 'a list \<Rightarrow> 'a list" where
  "resize n x xs = take n xs @ replicate (n - length xs) x"

definition passOnUpdateBegin :: "nat \<Rightarrow> DrawableProcessorPass \<Rightarrow> DrawableProcessorPass" where
  "passOnUpdateBegin numThreads pass = pass\<lparr>geometryBatches := replicate numThreads []\<rparr>"

text \<open>
  The frame constants (view matrix, material quality, global illumination) are set in the
  state by the caller; \<open>defaultAccumulator\<close> is a default constructed light accumulator.
\<close>

definition OnUpdateBegin ::
  "nat \<Rightarrow> nat \<Rightarrow> 'acc \<Rightarrow> 'acc DrawableProcessor \<Rightarrow> 'acc DrawableProcessor" where
  "OnUpdateBegin numThreads numDrawables defaultAccumulator dp =
     dp\<lparr>passes := map (passOnUpdateBegin numThreads) (passes dp),
        sceneZRangeTemp := replicate numThreads None,
        sceneZRange := None,
        isDrawableUpdated := replicate numDrawables False,
        geometryFlags := replicate numDrawables {},
        geometryZRanges := resize numDrawables (0, 0) (geometryZRanges dp),
        geometryLighting := resize numDrawables defaultAccumulator (geometryLighting dp),
        visibleGeometries := replicate numThreads [],
        threadedGeometryUpdates := replicate numThreads [],
        nonThreadedGeometryUpdates := replicate numThreads [],
        visibleLightsTemp := replicate numThreads [],
        queuedDrawableUpdates := replicate numThreads []\<rparr>"

subsection \<open>ProcessVisibleDrawable\<close>

definition CalculateBoundingBoxZRange ::
  "'acc DrawableProcessor \<Rightarrow> Vector3 \<times> Vector3 \<Rightarrow> FloatRange option" where
  "CalculateBoundingBoxZRange dp boundingBox =
     (case boundingBox of ((x0, y0, z0), (x1, y1, z1)) \<Rightarrow>
        let center = ((x0 + x1) * (1 / 2), (y0 + y1) * (1 / 2), (z0 + z1) * (1 / 2));
            edge = ((x1 - x0) * (1 / 2), (y1 - y0) * (1 / 2), (z1 - z0) * (1 / 2))
        in case (center, edge, viewZ dp, absViewZ dp) of
             ((cx, cy, cz), (ex, ey, ez), (vx, vy, vz), (ax, ay, az)) \<Rightarrow>
               if ex * ex + ey * ey + ez * ez \<ge> M_LARGE_VALUE * M_LARGE_VALUE then None
               else
                 let viewCenterZ = vx * cx + vy * cy + vz * cz + viewMatrixM23 dp;
                     viewEdgeZ = ax * ex + ay * ey + az * ez
                 in Some (viewCenterZ - viewEdgeZ, viewCenterZ + viewEdgeZ))"

definition QueueDrawableGeometryUpdate ::
  "nat \<Rightarrow> Drawable \<Rightarrow> 'acc DrawableProcessor \<Rightarrow> 'acc DrawableProcessor" where
  "QueueDrawableGeometryUpdate threadIndex drawable dp =
     (if updateGeometryType drawable = UPDATE_MAIN_THREAD
      then dp\<lparr>nonThreadedGeometryUpdates :=
                PushBack threadIndex drawable (nonThreadedGeometryUpdates dp)\<rparr>
      else dp\<lparr>threadedGeometryUpdates :=
                PushBack threadIndex drawable (threadedGeometryUpdates dp)\<rparr>)"

text \<open>
  The loop over the passes for one source batch: every pass gets the batch offered, and the
  flags \<open>isForwardLit\<close> and \<open>needAmbient\<close> accumulate.
\<close>

fun updateScenePasses ::
  "nat \<Rightarrow> Drawable \<Rightarrow> nat \<Rightarrow> Technique \<Rightarrow> DrawableProcessorPass list \<Rightarrow> bool \<Rightarrow> bool \<Rightarrow>
   DrawableProcessorPass list \<times> bool \<times> bool" where
  "updateScenePasses threadIndex drawable i technique [] isForwardLit needAmb =
     ([], isForwardLit, needAmb)"
| "updateScenePasses threadIndex drawable i technique (pass # rest) isForwardLit needAmb =
     (case AddBatch threadIndex drawable i technique pass of
        (pass1, added, litAdded) \<Rightarrow>
          (case updateScenePasses threadIndex drawable i technique rest
                  (isForwardLit \<or> litAdded)
                  (needAmb \<or> litAdded \<or> (added \<and> needAmbient pass)) of
             (rest1, isForwardLit1, needAmb1) \<Rightarrow> (pass1 # rest1, isForwardLit1, needAmb1)))"

text \<open>
  The loop over the source batches of a drawable. \<open>FindTechnique\<close> is the technique
  look-up of the material, null when the material has no technique for the drawable.
\<close>

fun collectBatches ::
  "(nat \<Rightarrow> Drawable \<Rightarrow> nat \<Rightarrow> Technique option) \<Rightarrow> nat \<Rightarrow> nat \<Rightarrow> nat \<Rightarrow> nat \<Rightarrow> Drawable \<Rightarrow>
   nat list \<Rightarrow> DrawableProcessorPass list \<Rightarrow> bool \<Rightarrow> bool \<Rightarrow>
   DrawableProcessorPass list \<times> bool \<times> bool" where
  "collectBatches FindTechnique defaultMat quality threadIndex n drawable [] ps isForwardLit needAmb =
     (ps, isForwardLit, needAmb)"
| "collectBatches FindTechnique defaultMat quality threadIndex n drawable (i # rest) ps isForwardLit needAmb =
     (let sourceBatch = batches drawable ! i;
          mat = (case material sourceBatch of Some m \<Rightarrow> m | None \<Rightarrow> defaultMat)
      in case FindTechnique mat drawable quality of
           None \<Rightarrow>
             collectBatches FindTechnique defaultMat quality threadIndex n drawable rest ps
               isForwardLit needAmb
         | Some technique \<Rightarrow>
             (case updateScenePasses threadIndex drawable i technique ps isForwardLit needAmb of
                (ps1, isForwardLit1, needAmb1) \<Rightarrow>
                  collectBatches FindTechnique defaultMat quality threadIndex n drawable rest ps1
                    isForwardLit1 needAmb1))"

text \<open>
  The per-drawable arrays are resized to the number of drawables and the per-thread
  collections to the number of threads by \<open>OnUpdateBegin\<close>. An index outside one of them
  is not defined by the C++ code.
\<close>

definition indicesInRange :: "nat \<Rightarrow> nat \<Rightarrow> 'acc DrawableProcessor \<Rightarrow> bool" where
  "indicesInRange threadIndex index dp =
     (index < length (isDrawableUpdated dp) \<and>
      index < length (geometryFlags dp) \<and>
      index < length (geometryZRanges dp) \<and>
      index < length (geometryLighting dp) \<and>
      threadIndex < length (sceneZRangeTemp dp) \<and>
      threadIndex < length (visibleGeometries dp) \<and>
      threadIndex < length (threadedGeometryUpdates dp) \<and>
      threadIndex < length (nonThreadedGeometryUpdates dp) \<and>
      threadIndex < length (visibleLightsTemp dp) \<and>
      list_all (\<lambda>pass. threadIndex < length (geometryBatches pass)) (passes dp))"

text \<open>
  The branch for geometries. \<open>ResetLights\<close> and \<open>ambient\<close> are the operations on the light
  accumulator: \<open>ambient useGI drawable\<close> sets the spherical harmonics from the global
  illumination (or to zero) and adds the ambient of the zone.
\<close>

definition processGeometry ::
  "(nat \<Rightarrow> Drawable \<Rightarrow> nat \<Rightarrow> Technique option) \<Rightarrow> ('acc \<Rightarrow> 'acc) \<Rightarrow>
   (bool \<Rightarrow> Drawable \<Rightarrow> 'acc \<Rightarrow> 'acc) \<Rightarrow> nat \<Rightarrow> Drawable \<Rightarrow>
   'acc DrawableProcessor \<Rightarrow> 'acc DrawableProcessor" where
  "processGeometry FindTechnique ResetLights ambient threadIndex drawable dp =
     (let index = drawableIndex drawable;
          zRange = CalculateBoundingBoxZRange dp (worldBoundingBox drawable);
          dp1 = (if \<not> IsValid zRange
                 then dp\<lparr>geometryZRanges :=
                          (geometryZRanges dp)[index := (M_LARGE_VALUE, M_LARGE_VALUE)]\<rparr>
                 else dp\<lparr>geometryZRanges := (geometryZRanges dp)[index := the zRange],
                         sceneZRangeTemp := (sceneZRangeTemp dp)
                           [threadIndex := rangeUnion (sceneZRangeTemp dp ! threadIndex) zRange]\<rparr>)
      in case collectBatches FindTechnique (defaultMaterial dp1) (materialQuality dp1) threadIndex
                (length (batches drawable)) drawable [0..<length (batches drawable)]
                (passes dp1) False False of
           (passes1, isForwardLit, needAmb) \<Rightarrow>
             let dp2 = dp1\<lparr>passes := passes1\<rparr>;
                 dp3 = (if needAmb then
                          let acc = geometryLighting dp2 ! index;
                              acc1 = (if isForwardLit then ResetLights acc else acc);
                              acc2 = ambient (gi dp2 \<and> blendLightProbes drawable) drawable acc1
                          in dp2\<lparr>geometryLighting := (geometryLighting dp2)[index := acc2]\<rparr>
                        else dp2);
                 dp4 = dp3\<lparr>visibleGeometries := PushBack threadIndex drawable (visibleGeometries dp3)\<rparr>;
                 flag = {Visible} \<union> (if needAmb then {Lit} else {})
                          \<union> (if isForwardLit then {ForwardLit} else {});
                 dp5 = dp4\<lparr>geometryFlags := (geometryFlags dp4)[index := flag]\<rparr>
             in QueueDrawableGeometryUpdate threadIndex drawable dp5)"

text \<open>
  \<open>ProcessVisibleDrawable\<close>, run by the worker thread \<open>threadIndex\<close>. The effects on the
  drawable itself (its batches, its view mark and its cached zone) are outside the state
  of the processor.
\<close>

definition ProcessVisibleDrawable ::
  "(nat \<Rightarrow> Drawable \<Rightarrow> nat \<Rightarrow> Technique option) \<Rightarrow> ('acc \<Rightarrow> 'acc) \<Rightarrow>
   (bool \<Rightarrow> Drawable \<Rightarrow> 'acc \<Rightarrow> 'acc) \<Rightarrow> nat \<Rightarrow> Drawable \<Rightarrow>
   'acc DrawableProcessor \<Rightarrow> 'acc DrawableProcessor option" where
  "ProcessVisibleDrawable FindTechnique ResetLights ambient threadIndex drawable dp =
     (if \<not> indicesInRange threadIndex (drawableIndex drawable) dp then None
      else
        let dp1 = dp\<lparr>isDrawableUpdated := (isDrawableUpdated dp)[drawableIndex drawable := True]\<rparr>;
            maxDistance = drawDistance drawable
        in if maxDistance > 0 \<and> distance drawable > maxDistance then Some dp1
           else if DRAWABLE_GEOMETRY \<in> drawableFlags drawable
           then Some (processGeometry FindTechnique ResetLights ambient threadIndex drawable dp1)
           else if DRAWABLE_LIGHT \<in> drawableFlags drawable
           then (if \<not> effectiveColorIsBlack drawable \<and> lightMaskEffective drawable \<noteq> 0
                 then Some (dp1\<lparr>visibleLightsTemp :=
                              PushBack threadIndex drawable (visibleLightsTemp dp1)\<rparr>)
                 else Some dp1)
           else Some dp1)"

subsection \<open>ProcessVisibleDrawables\<close>

text \<open>
  The parallel loop over the drawables. Every call of \<open>ProcessVisibleDrawable\<close> writes
  only to the vectors of its thread and to the array slots of its drawable, so a run of the
  loop is given by the order in which the calls take effect and by the thread that makes
  each call: a list of pairs of thread index and drawable.
\<close>

fun processRun ::
  "(nat \<Rightarrow> Drawable \<Rightarrow> 'st \<Rightarrow> 'st option) \<Rightarrow> (nat \<times> Drawable) list \<Rightarrow> 'st \<Rightarrow> 'st option" where
  "processRun f [] dp = Some dp"
| "processRun f ((threadIndex, drawable) # rest) dp =
     (case f threadIndex drawable dp of
        None \<Rightarrow> None
      | Some dp1 \<Rightarrow> processRun f rest dp1)"

definition compareID :: "Light \<Rightarrow> Light \<Rightarrow> bool" where
  "compareID lhs rhs = (ID lhs < ID rhs)"

text \<open>
  What the library sort guarantees for a comparison: the result is a rearrangement of the
  input in which no element compares less than an element before it.
\<close>

definition sortsBy :: "('a \<Rightarrow> 'a \<Rightarrow> bool) \<Rightarrow> ('a list \<Rightarrow> 'a list) \<Rightarrow> bool" where
  "sortsBy compare sortFn =
     (\<forall>xs. mset (sortFn xs) = mset xs \<and> sorted_wrt (\<lambda>a b. \<not> compare b a) (sortFn xs))"

definition ProcessVisibleDrawables ::
  "(Light list \<Rightarrow> Light list) \<Rightarrow>
   (nat \<Rightarrow> Drawable \<Rightarrow> nat \<Rightarrow> Technique option) \<Rightarrow> ('acc \<Rightarrow> 'acc) \<Rightarrow>
   (bool \<Rightarrow> Drawable \<Rightarrow> 'acc \<Rightarrow> 'acc) \<Rightarrow> (nat \<times> Drawable) list \<Rightarrow>
   'acc DrawableProcessor \<Rightarrow> 'acc DrawableProcessor option" where
  "ProcessVisibleDrawables sortLights FindTechnique ResetLights ambient run dp =
     (case processRun (ProcessVisibleDrawable FindTechnique ResetLights ambient) run dp of
        None \<Rightarrow> None
      | Some dp1 \<Rightarrow>
          let lights = sortLights (concat (visibleLightsTemp dp1))
          in case getLightProcessors lights (lightProcessorCache dp1) of
               (processors, cache1) \<Rightarrow>
                 Some (dp1\<lparr>visibleLights := lights,
                          lightProcessors := processors,
                          lightProcessorCache := cache1,
                          sceneZRange := foldl rangeUnion (sceneZRange dp1) (sceneZRangeTemp dp1)\<rparr>))"

text \<open>A light that \<open>ProcessVisibleDrawable\<close> queues as visible.\<close>

definition isVisibleLight :: "Drawable \<Rightarrow> bool" where
  "isVisibleLight drawable =
     (\<not> (drawDistance drawable > 0 \<and> distance drawable > drawDistance drawable) \<and>
      DRAWABLE_GEOMETRY \<notin> drawableFlags drawable \<and>
      DRAWABLE_LIGHT \<in> drawableFlags drawable \<and>
      \<not> effectiveColorIsBlack drawable \<and> lightMaskEffective drawable \<noteq> 0)"

subsection \<open>ProcessForwardLighting\<close>

definition GetDrawableLightPenalty :: "float \<Rightarrow> LightImportance \<Rightarrow> LightType \<Rightarrow> float" where
  "GetDrawableLightPenalty intensityPenalty importance type =
     (case importance of
        LI_IMPORTANT \<Rightarrow> (if type = LIGHT_DIRECTIONAL then - 2 else - 1)
      | LI_AUTO \<Rightarrow> (if intensityPenalty \<le> 1 then intensityPenalty else 2 - 1 / intensityPenalty)
      | LI_NOT_IMPORTANT \<Rightarrow>
          (if intensityPenalty \<le> 1 then 3 + intensityPenalty else 5 - 1 / intensityPenalty))"

record LightAccumulatorContext =
  ctxMaxVertexLights :: nat
  ctxMaxPixelLights :: nat
  ctxLightImportance :: LightImportance
  ctxLightIndex :: nat
  ctxLights :: "Light list"

text \<open>
  The parallel loop over the lit geometries, each with its own accumulator.
  \<open>AccumulateLight\<close> is the operation of the light accumulator, \<open>GetDistanceTo\<close> the
  distance from the light to a drawable and \<open>largeEpsilon\<close> the constant
  \<open>M_LARGE_EPSILON\<close>. \<open>None\<close> is a drawable index outside the accumulators.
\<close>

fun accumulateForwardLighting ::
  "(LightAccumulatorContext \<Rightarrow> float \<Rightarrow> 'acc \<Rightarrow> 'acc) \<Rightarrow> (Light \<Rightarrow> Drawable \<Rightarrow> float) \<Rightarrow> float \<Rightarrow>
   LightAccumulatorContext \<Rightarrow> Light \<Rightarrow> float \<Rightarrow> Drawable list \<Rightarrow> 'acc list \<Rightarrow> 'acc list option" where
  "accumulateForwardLighting AccumulateLight GetDistanceTo largeEpsilon ctx l lightIntensityPenalty
     [] lighting = Some lighting"
| "accumulateForwardLighting AccumulateLight GetDistanceTo largeEpsilon ctx l lightIntensityPenalty
     (geom # rest) lighting =
     (let dist = max (GetDistanceTo l geom) largeEpsilon;
          penalty = GetDrawableLightPenalty (dist * lightIntensityPenalty)
                      (ctxLightImportance ctx) (lightType l);
          index = drawableIndex geom
      in if index < length lighting
         then accumulateForwardLighting AccumulateLight GetDistanceTo largeEpsilon ctx l
                lightIntensityPenalty rest
                (lighting[index := AccumulateLight ctx penalty (lighting ! index)])
         else None)"

definition ProcessForwardLighting ::
  "(LightAccumulatorContext \<Rightarrow> float \<Rightarrow> 'acc \<Rightarrow> 'acc) \<Rightarrow> (Light \<Rightarrow> Drawable \<Rightarrow> float) \<Rightarrow> float \<Rightarrow>
   nat \<Rightarrow> Drawable list \<Rightarrow> 'acc DrawableProcessor \<Rightarrow> 'acc DrawableProcessor option" where
  "ProcessForwardLighting AccumulateLight GetDistanceTo largeEpsilon lightIndex litGeometries dp =
     (if lightIndex \<ge> length (visibleLights dp)
      then Some (dp\<lparr>log := log dp @ [(''Invalid light index {}'', lightIndex)]\<rparr>)
      else
        let l = visibleLights dp ! lightIndex;
            lightIntensityPenalty = 1 / intensityDivisor l;
            ctx = \<lparr>ctxMaxVertexLights = maxVertexLights dp,
                   ctxMaxPixelLights = maxPixelLights dp,
                   ctxLightImportance = lightImportance l,
                   ctxLightIndex = lightIndex,
                   ctxLights = visibleLights dp\<rparr>
        in case accumulateForwardLighting AccumulateLight GetDistanceTo largeEpsilon ctx l
                  lightIntensityPenalty litGeometries (geometryLighting dp) of
             None \<Rightarrow> None
           | Some lighting \<Rightarrow> Some (dp\<lparr>geometryLighting := lighting\<rparr>))"

section \<open>Cache of pipeline states\<close>

text \<open>
  The key used to look up a cached pipeline state, and the key used to create one, which
  extends it. Geometry, material and pass are the objects themselves.
\<close>

record BatchStateLookupKey =
  drawableHash :: nat
  pixelLightHash :: nat
  keyGeometryType :: nat
  keyGeometry :: nat
  keyMaterial :: nat
  keyPass :: nat

record BatchStateCreateKey = BatchStateLookupKey +
  keyDrawable :: nat
  keySourceBatchIndex :: nat
  pixelLight :: "nat option"
  pixelLightIndex :: nat
  vertexLightsHash :: nat

record CachedBatchState =
  geometryHash :: nat
  materialHash :: nat
  passHash :: nat
  pipelineState :: "nat option"
  invalidated :: bool

record BatchStateCreateContext =
  ctxPass :: nat
  subpassIndex :: nat

type_synonym BatchStateCache = "BatchStateLookupKey \<Rightarrow> CachedBatchState option"

text \<open>
  Modelled from the spec: the member functions of \<open>BatchStateCache\<close> are declared in the
  header and defined outside the sources at hand. An entry of the cache holds the
  pipeline state with the hashes of geometry, material and pass at its creation and an
  invalidation flag. \<open>Invalidate\<close> sets the flag of every entry. \<open>pipelineStateHash\<close>
  gives the present hash of a geometry, material or pass. An entry is current when it is
  not invalidated and the hashes of the objects of the key are those it stores.
\<close>

definition Invalidate :: "BatchStateCache \<Rightarrow> BatchStateCache" where
  "Invalidate c = (\<lambda>key. map_option (\<lambda>entry. entry\<lparr>invalidated := True\<rparr>) (c key))"

definition isCurrent :: "(nat \<Rightarrow> nat) \<Rightarrow> BatchStateLookupKey \<Rightarrow> CachedBatchState \<Rightarrow> bool" where
  "isCurrent pipelineStateHash key entry =
     (\<not> invalidated entry \<and>
      pipelineStateHash (keyGeometry key) = geometryHash entry \<and>
      pipelineStateHash (keyMaterial key) = materialHash entry \<and>
      pipelineStateHash (keyPass key) = passHash entry)"

text \<open>
  Modelled from the spec: the look-up returns the state of the entry of the key, or null; it
  is read-only.
\<close>

definition GetPipelineState ::
  "(nat \<Rightarrow> nat) \<Rightarrow> BatchStateCache \<Rightarrow> BatchStateLookupKey \<Rightarrow> nat option" where
  "GetPipelineState pipelineStateHash c key =
     (case c key of
        None \<Rightarrow> None
      | Some entry \<Rightarrow> if isCurrent pipelineStateHash key entry then pipelineState entry else None)"

text \<open>
  Modelled from the spec: the resolution consults the same map and, on a miss, calls the
  creation callback, stores its result, which may be an invalid or null state, with the
  present hashes, and marks the entry as not invalidated.
\<close>

definition GetOrCreatePipelineState ::
  "(BatchStateCreateKey \<Rightarrow> BatchStateCreateContext \<Rightarrow> nat option) \<Rightarrow> (nat \<Rightarrow> nat) \<Rightarrow>
   BatchStateCreateKey \<Rightarrow> BatchStateCreateContext \<Rightarrow> BatchStateCache \<Rightarrow>
   nat option \<times> BatchStateCache" where
  "GetOrCreatePipelineState CreateBatchPipelineState pipelineStateHash key ctx c =
     (let lookupKey = BatchStateLookupKey.truncate key;
          hit = (case c lookupKey of
                   None \<Rightarrow> False
                 | Some entry \<Rightarrow>
                     pipelineState entry \<noteq> None \<and> isCurrent pipelineStateHash lookupKey entry)
      in if hit then (pipelineState (the (c lookupKey)), c)
         else
           let state = CreateBatchPipelineState key ctx;
               entry = \<lparr>geometryHash = pipelineStateHash (keyGeometry key),
                        materialHash = pipelineStateHash (keyMaterial key),
                        passHash = pipelineStateHash (keyPass key),
                        pipelineState = state,
                        invalidated = False\<rparr>
           in (state, c(lookupKey \<mapsto> entry)))"

section \<open>Shadow scene pass\<close>

text \<open>
  The state that \<open>CollectShadowBatches\<close> changes: the shadow batches of the split and the
  per-thread collection of batches without pipeline state, each named by the index of its
  split and its index in the batches of the split.
\<close>

record ShadowBatches =
  shadowBatches :: "BaseSceneBatch list"
  batchesDirty :: "(nat \<times> nat) list list"

text \<open>
  The test of the shadow mask as the compiler reads it: \<open>==\<close> binds tighter than \<open>&\<close>, so
  the shadow mask is combined with the truth value of \<open>lightMask == 0\<close>.
\<close>

definition shadowMaskSkips :: "32 word \<Rightarrow> 32 word \<Rightarrow> bool" where
  "shadowMaskSkips shadowMask lightMsk =
     (and shadowMask (if lightMsk = 0 then 1 else 0) \<noteq> 0)"

definition effectiveMaxShadowDistance :: "Drawable \<Rightarrow> float" where
  "effectiveMaxShadowDistance drawable =
     (let maxShadowDistance = shadowDistance drawable;
          drawDist = drawDistance drawable
      in if drawDist > 0 \<and> (maxShadowDistance \<le> 0 \<or> drawDist < maxShadowDistance)
         then drawDist else maxShadowDistance)"

definition shadowDistanceSkips :: "Drawable \<Rightarrow> bool" where
  "shadowDistanceSkips drawable =
     (effectiveMaxShadowDistance drawable > 0 \<and>
      distance drawable > effectiveMaxShadowDistance drawable)"

text \<open>
  The loop over the source batches of a shadow caster. \<open>FindTechnique\<close> is the technique
  look-up of the material and \<open>GetPipelineState\<close> the look-up in the cache of the pass
  with the batch and the hash of the light. \<open>None\<close> is the use of a null technique.
\<close>

fun addShadowBatches ::
  "(nat \<Rightarrow> Drawable \<Rightarrow> nat \<Rightarrow> Technique option) \<Rightarrow> (BaseSceneBatch \<Rightarrow> nat \<Rightarrow> nat option) \<Rightarrow>
   nat \<Rightarrow> nat \<Rightarrow> nat \<Rightarrow> nat \<Rightarrow> nat \<Rightarrow> nat \<Rightarrow> Drawable \<Rightarrow> nat list \<Rightarrow>
   ShadowBatches \<Rightarrow> ShadowBatches option" where
  "addShadowBatches FindTechnique LookupState defaultMat quality shadowPassIndex lightHash
     threadIndex splitIndex drawable [] sb = Some sb"
| "addShadowBatches FindTechnique LookupState defaultMat quality shadowPassIndex lightHash
     threadIndex splitIndex drawable (j # rest) sb =
     (let sourceBatch = batches drawable ! j;
          mat = (case material sourceBatch of Some m \<Rightarrow> m | None \<Rightarrow> defaultMat)
      in case FindTechnique mat drawable quality of
           None \<Rightarrow> None
         | Some tech \<Rightarrow>
             (case tech shadowPassIndex of
                None \<Rightarrow>
                  addShadowBatches FindTechnique LookupState defaultMat quality shadowPassIndex
                    lightHash threadIndex splitIndex drawable rest sb
              | Some pass \<Rightarrow>
                  let batch = \<lparr>batchDrawableIndex = drawableIndex drawable,
                                 batchSourceBatchIndex = j,
                                 batchGeometryType = geometryType sourceBatch,
                                 batchDrawable = drawable,
                                 batchGeometry = geometry sourceBatch,
                                 batchMaterial = mat,
                                 batchPass = pass,
                                 batchPipelineState = None\<rparr>;
                      batch1 = batch\<lparr>batchPipelineState := LookupState batch lightHash\<rparr>;
                      sb1 = (if batchPipelineState batch1 = None
                             then sb\<lparr>batchesDirty := PushBack threadIndex
                                       (splitIndex, length (shadowBatches sb)) (batchesDirty sb)\<rparr>
                             else sb)
                  in addShadowBatches FindTechnique LookupState defaultMat quality shadowPassIndex
                       lightHash threadIndex splitIndex drawable rest
                       (sb1\<lparr>shadowBatches := shadowBatches sb1 @ [batch1]\<rparr>)))"

fun CollectShadowBatches ::
  "(nat \<Rightarrow> Drawable \<Rightarrow> nat \<Rightarrow> Technique option) \<Rightarrow> (BaseSceneBatch \<Rightarrow> nat \<Rightarrow> nat option) \<Rightarrow>
   nat \<Rightarrow> nat \<Rightarrow> nat \<Rightarrow> 32 word \<Rightarrow> nat \<Rightarrow> nat \<Rightarrow> nat \<Rightarrow> Drawable list \<Rightarrow>
   ShadowBatches \<Rightarrow> ShadowBatches option" where
  "CollectShadowBatches FindTechnique LookupState defaultMat quality shadowPassIndex lightMsk
     lightHash threadIndex splitIndex [] sb = Some sb"
| "CollectShadowBatches FindTechnique LookupState defaultMat quality shadowPassIndex lightMsk
     lightHash threadIndex splitIndex (drawable # casters) sb =
     (if shadowMaskSkips (shadowMaskInZone drawable) lightMsk
      then CollectShadowBatches FindTechnique LookupState defaultMat quality shadowPassIndex
             lightMsk lightHash threadIndex splitIndex casters sb
      else if shadowDistanceSkips drawable
      then CollectShadowBatches FindTechnique LookupState defaultMat quality shadowPassIndex
             lightMsk lightHash threadIndex splitIndex casters sb
      else
        (case addShadowBatches FindTechnique LookupState defaultMat quality shadowPassIndex
                lightHash threadIndex splitIndex drawable [0..<length (batches drawable)] sb of
           None \<Rightarrow> None
         | Some sb1 \<Rightarrow>
             CollectShadowBatches FindTechnique LookupState defaultMat quality shadowPassIndex
               lightMsk lightHash threadIndex splitIndex casters sb1))"

text \<open>The test of the shadow mask that the comment in the code announces.\<close>

definition shadowMaskDisjoint :: "32 word \<Rightarrow> 32 word \<Rightarrow> bool" where
  "shadowMaskDisjoint shadowMask lightMsk = (and shadowMask lightMsk = 0)"

section \<open>Example values\<close>

definition exampleCamera :: Camera where
  "exampleCamera = \<lparr>position = (0, 0, 0), orientation = Rotation (1, 0, 0, 0), nearClip = 0,
     farClip = 1000, fov = 45, aspectRatio = 1, orthographic = False, zoom = 1\<rparr>"

definition exampleSplit :: "Drawable list \<Rightarrow> BaseSceneBatch list \<Rightarrow> SceneLightShadowSplit" where
  "exampleSplit casters casterBatches = \<lparr>shadowCamera = None, zRange = (0, 0), shadowCasters = casters,
     shadowCasterBatches = casterBatches, shadowMap = \<lparr>texture = None, region = (0, 0, 0, 0)\<rparr>\<rparr>"

definition exampleDrawable :: Drawable where
  "exampleDrawable = \<lparr>ID = 1, drawableIndex = 0, drawableFlags = {DRAWABLE_GEOMETRY},
     drawDistance = 0, shadowDistance = 0, distance = 5,
     worldBoundingBox = ((0, 0, 0), (1, 1, 1)), updateGeometryType = UPDATE_NONE,
     batches = [\<lparr>geometryType = 0, geometry = Some 1, material = Some 1\<rparr>],
     castShadows = True, shadowMaskInZone = 1, blendLightProbes = False,
     lightType = LIGHT_POINT, lightMask = 1, lightMaskEffective = 1,
     effectiveColorIsBlack = False, lightImportance = LI_AUTO, intensityDivisor = 1,
     numShadowSplits = 1, cascadeSplits = [1000, 0, 0, 0], range = 10, lightFov = 30,
     lightAspectRatio = 1, shadowNearFarRatio = 1 / 500, worldPosition = (0, 0, 0),
     worldRotation = (1, 0, 0, 0), shapeTexture = None, specularIntensity = 1,
     shadowBias = \<lparr>constantBias = 0, slopeScaledBias = 0, normalOffset = 0\<rparr>\<rparr>"

definition exampleLight :: "LightType \<Rightarrow> int \<Rightarrow> float list \<Rightarrow> Light" where
  "exampleLight t n cascade = exampleDrawable\<lparr>drawableFlags := {DRAWABLE_LIGHT},
     lightType := t, numShadowSplits := n, cascadeSplits := cascade\<rparr>"

definition exampleProcessor :: "Light \<Rightarrow> nat \<Rightarrow> SceneLightShadowSplit list \<Rightarrow> LightProcessor" where
  "exampleProcessor l n ss = \<lparr>light = l, splits = ss, lpLitGeometries = [],
     lpTempShadowCasters = [], hasShadow = True, numSplits = n,
     shadowMapSplitSize = 0, shadowMapSize = (0, 0),
     lpShadowMap = \<lparr>texture = None, region = (0, 0, 0, 0)\<rparr>,
     pipelineStateHashDirty = True\<rparr>"

text \<open>The numbers of the light types, and a shadow map whose allocation failed.\<close>

definition lightTypeNumber :: "LightType \<Rightarrow> 32 word" where
  "lightTypeNumber t = (case t of LIGHT_DIRECTIONAL \<Rightarrow> 0 | LIGHT_SPOT \<Rightarrow> 1 | LIGHT_POINT \<Rightarrow> 2)"


definition initialDrawableProcessor :: "nat DrawableProcessor" where
  "initialDrawableProcessor = \<lparr>defaultMaterial = 0, materialQuality = 2, gi = False,
     viewZ = (0, 0, 1), absViewZ = (0, 0, 1), viewMatrixM23 = 0,
     maxVertexLights = 4, maxPixelLights = 4,
     passes = [\<lparr>needAmbient = True, unlitBasePassIndex = 0, litBasePassIndex = 1,
                 lightPassIndex = 2, geometryBatches = []\<rparr>],
     isDrawableUpdated = [], geometryFlags = [], geometryZRanges = [], geometryLighting = [],
     sceneZRangeTemp = [], sceneZRange = None, visibleGeometries = [],
     threadedGeometryUpdates = [], nonThreadedGeometryUpdates = [], visibleLightsTemp = [],
     visibleLights = [], lightProcessors = [],
     lightProcessorCache = \<lparr>cache = Map.empty, numProcessors = 0\<rparr>,
     queuedDrawableUpdates = [], log = []\<rparr>"

definition exampleFrame :: "nat DrawableProcessor" where
  "exampleFrame = OnUpdateBegin 2 4 0 initialDrawableProcessor"

definition exampleTechnique :: "nat \<Rightarrow> Drawable \<Rightarrow> nat \<Rightarrow> Technique option" where
  "exampleTechnique m d q = Some (\<lambda>i. if i = 0 then Some 10 else None)"

definition farDrawable :: Drawable where
  "farDrawable = exampleDrawable\<lparr>drawableIndex := 1, drawDistance := 10, distance := 20\<rparr>"

definition visibleLight :: "nat \<Rightarrow> nat \<Rightarrow> Light" where
  "visibleLight i n = (exampleLight LIGHT_POINT 1 [1000, 0, 0, 0])\<lparr>ID := i, drawableIndex := n\<rparr>"

definition exampleRun1 :: "(nat \<times> Drawable) list" where
  "exampleRun1 = [(0, visibleLight 7 0), (1, visibleLight 3 2), (0, farDrawable)]"

definition exampleRun2 :: "(nat \<times> Drawable) list" where
  "exampleRun2 = [(1, farDrawable), (1, visibleLight 3 2), (1, visibleLight 7 0)]"

definition exampleKey :: BatchStateCreateKey where
  "exampleKey = \<lparr>drawableHash = 11, pixelLightHash = 12, keyGeometryType = 0, keyGeometry = 1,
     keyMaterial = 2, keyPass = 3, keyDrawable = 0, keySourceBatchIndex = 0, pixelLight = None,
     pixelLightIndex = 0, vertexLightsHash = 0\<rparr>"

definition maskedCaster :: Drawable where
  "maskedCaster = exampleDrawable\<lparr>drawableIndex := 3, shadowMaskInZone := 2\<rparr>"

section \<open>Shadow splits of a light\<close>

subsection \<open>Auxiliary facts\<close>

lemma GetOrCreateShadowCamera_Some:
  "GetOrCreateShadowCamera nc i lp = Some lp1 \<Longrightarrow>
     numSplits lp1 = numSplits lp \<and> length (splits lp1) = length (splits lp) \<and> light lp1 = light lp"
  by (auto simp: GetOrCreateShadowCamera_def Let_def split: if_splits)

lemma GetOrCreateShadowCamera_defined:
  "i < length (splits lp) \<Longrightarrow> \<exists>lp1. GetOrCreateShadowCamera nc i lp = Some lp1"
  by (simp add: GetOrCreateShadowCamera_def Let_def)

lemma updateSplit_fields [simp]:
  "numSplits (updateSplit i f lp) = numSplits lp"
  "length (splits (updateSplit i f lp)) = length (splits lp)"
  "light (updateSplit i f lp) = light lp"
  by (simp_all add: updateSplit_def)

lemma dirLightSplits_numSplits:
  "dirLightSplits nc su far cs n i (cascadeNear near far cs i) lp = Some lp' \<Longrightarrow>
   numSplits lp' = numSplits lp + length (takeWhile (splitInRange near far cs) [i..<n])"
proof (induction nc su far cs n i "cascadeNear near far cs i" lp rule: dirLightSplits.induct)
  case (1 nc su far cs n i lp)
  note unf = "1.prems"[unfolded dirLightSplits.simps[of nc su far cs n i]]
  show ?case
  proof (cases "i < n")
    case False
    with unf show ?thesis by simp
  next
    case True
    note lt = True
    show ?thesis
    proof (cases "splitInRange near far cs i")
      case False
      then have "takeWhile (splitInRange near far cs) [i..<n] = []"
        using lt by (simp add: upt_conv_Cons)
      moreover have "lp' = lp"
        using unf lt False
        by (auto simp: splitInRange_def cascadeFar_def Let_def split: if_splits)
      ultimately show ?thesis by simp
    next
      case ok: True
      then have tw: "takeWhile (splitInRange near far cs) [i..<n] =
                 i # takeWhile (splitInRange near far cs) [Suc i..<n]"
        using lt by (simp add: upt_conv_Cons)
      have c1: "\<not> cascadeNear near far cs i > far" and c2: "\<not> min far (cs ! i) \<le> cascadeNear near far cs i"
        using ok by (auto simp: splitInRange_def cascadeFar_def)
      have c3: "i < length cs"
        using unf lt c1 by (auto split: if_splits)
      obtain lp1 where g: "GetOrCreateShadowCamera nc i lp = Some lp1"
        using unf lt c1 c2 c3 by (auto simp: Let_def split: option.splits if_splits)
      let ?lp3 = "updateSplit i su (updateSplit i (\<lambda>s. s\<lparr>zRange := (cascadeNear near far cs i, min far (cs ! i))\<rparr>) lp1)"
      have nxt: "cascadeNear near far cs (Suc i) = min far (cs ! i)"
        by (simp add: cascadeNear_def cascadeFar_def)
      have rec: "dirLightSplits nc su far cs n (Suc i) (cascadeNear near far cs (Suc i))
                   (?lp3\<lparr>numSplits := numSplits ?lp3 + 1\<rparr>) = Some lp'"
        using unf lt c1 c2 c3 g nxt by (simp add: Let_def)
      have c3': "\<not> length cs \<le> i" using c3 by simp
      have c2': "\<not> cascadeNear near far cs (Suc i) \<le> cascadeNear near far cs i"
        using c2 nxt by simp
      have rec': "dirLightSplits nc su far cs n (Suc i) (cascadeNear near far cs (Suc i))
                   ((updateSplit i su (updateSplit i (zRange_update
                       (\<lambda>_. (cascadeNear near far cs i, cascadeNear near far cs (Suc i)))) lp1))
                    \<lparr>numSplits := numSplits (updateSplit i su (updateSplit i (zRange_update
                       (\<lambda>_. (cascadeNear near far cs i, cascadeNear near far cs (Suc i)))) lp1)) + 1\<rparr>)
                  = Some lp'"
        using rec nxt by simp
      have "numSplits lp' = numSplits (?lp3\<lparr>numSplits := numSplits ?lp3 + 1\<rparr>)
              + length (takeWhile (splitInRange near far cs) [Suc i..<n])"
        using "1.hyps"[OF lt c1 c3' nxt c2' g refl refl rec'] by simp
      then show ?thesis
        using GetOrCreateShadowCamera_Some[OF g] tw by simp
    qed
  qed
qed

lemma dirLightSplits_defined:
  "n \<le> length cs \<Longrightarrow> n \<le> length (splits lp) \<Longrightarrow>
   \<exists>lp'. dirLightSplits nc su far cs n i nearSplit lp = Some lp'"
proof (induction nc su far cs n i nearSplit lp rule: dirLightSplits.induct)
  case (1 nc su far cs n i nearSplit lp)
  show ?case
  proof (cases "i < n \<and> \<not> nearSplit > far \<and> \<not> min far (cs ! i) \<le> nearSplit")
    case False
    then show ?thesis
      using "1.prems" by (subst dirLightSplits.simps) (auto simp: Let_def)
  next
    case True
    then have lt: "i < n" and c1: "\<not> far < nearSplit" and c2: "\<not> min far (cs ! i) \<le> nearSplit"
      by auto
    have c3: "\<not> length cs \<le> i" using lt "1.prems" by simp
    obtain lp1 where g: "GetOrCreateShadowCamera nc i lp = Some lp1"
      using GetOrCreateShadowCamera_defined[of i lp nc] lt "1.prems" by auto
    have len: "length (splits lp1) = length (splits lp)"
      using GetOrCreateShadowCamera_Some[OF g] by simp
    show ?thesis
      using "1.IH"[OF lt c1 c3 refl c2 g refl refl] "1.prems" lt c1 c2 c3 g len
      by (subst dirLightSplits.simps) (simp add: Let_def)
  qed
qed


lemma pointLightSplits_defined:
  "\<forall>i \<in> set is. i < length (splits lp) \<Longrightarrow> \<exists>lp'. pointLightSplits nc is lp = Some lp'"
proof (induction "is" arbitrary: lp)
  case Nil
  then show ?case by simp
next
  case (Cons i rest)
  obtain lp1 where g: "GetOrCreateShadowCamera nc i lp = Some lp1"
    using GetOrCreateShadowCamera_defined[of i lp nc] Cons.prems by auto
  have "length (splits lp1) = length (splits lp)"
    using GetOrCreateShadowCamera_Some[OF g] by simp
  then show ?case
    using Cons.IH[of "updateSplit i f lp1" for f] Cons.prems g by simp
qed

lemma leadingSplitsInRange_le: "leadingSplitsInRange near far cs n \<le> n"
  unfolding leadingSplitsInRange_def
  using length_takeWhile_le[of "splitInRange near far cs" "[0..<n]"] by simp

subsection \<open>Number of active splits\<close>

text \<open>
  C1 (as the code has it). When the split array has room for six splits, the cascade table
  has its four entries and the light requests between 0 and 4 splits,
  \<open>SetupShadowCameras\<close> returns, and the number of active splits is 1 for a spot light,
  6 for a point light, and for a directional light the number of leading entries of the
  cascade table, among the requested ones, that are in range: the count stops at the first
  entry whose near bound exceeds the far clip of the camera or whose far bound, clamped to
  the far clip, does not exceed its near bound. A directional light never has more active
  splits than requested, and no light has more than the maximum of its type.
\<close>

theorem SetupShadowCameras_numSplits:
  assumes "MAX_CUBEMAP_FACES \<le> length (splits lp)"
    and "length (cascadeSplits (light lp)) = MAX_CASCADE_SPLITS"
    and "0 \<le> numShadowSplits (light lp)"
    and "numShadowSplits (light lp) \<le> int MAX_CASCADE_SPLITS"
  shows "\<exists>lp'. SetupShadowCameras newCamera setupDir cullNearClip cullFarClip lp = Some lp' \<and>
           numSplits lp' =
             (case lightType (light lp) of
                LIGHT_SPOT \<Rightarrow> 1
              | LIGHT_POINT \<Rightarrow> 6
              | LIGHT_DIRECTIONAL \<Rightarrow>
                  leadingSplitsInRange cullNearClip cullFarClip (cascadeSplits (light lp))
                    (nat (numShadowSplits (light lp)))) \<and>
           (lightType (light lp) = LIGHT_DIRECTIONAL \<longrightarrow>
              numSplits lp' \<le> nat (numShadowSplits (light lp))) \<and>
           numSplits lp' \<le> maxSplitsOfType (lightType (light lp))"
proof (cases "lightType (light lp)")
  case LIGHT_DIRECTIONAL
  let ?n = "nat (numShadowSplits (light lp))"
  let ?cs = "cascadeSplits (light lp)"
  have req: "requestedSplits (light lp) = ?n"
    using assms(3,4) by (simp add: requestedSplits_def MAX_CASCADE_SPLITS_def)
  have n4: "?n \<le> 4"
    using assms(4) by (simp add: MAX_CASCADE_SPLITS_def)
  have "?n \<le> length ?cs" "?n \<le> length (splits (lp\<lparr>numSplits := 0\<rparr>))"
    using n4 assms(1,2) by (simp_all add: MAX_CASCADE_SPLITS_def MAX_CUBEMAP_FACES_def)
  then obtain lp' where r: "dirLightSplits newCamera setupDir cullFarClip ?cs ?n 0 cullNearClip
                              (lp\<lparr>numSplits := 0\<rparr>) = Some lp'"
    using dirLightSplits_defined by blast
  have near0: "cascadeNear cullNearClip cullFarClip ?cs 0 = cullNearClip"
    by (simp add: cascadeNear_def)
  have cnt: "numSplits lp' = leadingSplitsInRange cullNearClip cullFarClip ?cs ?n"
    using dirLightSplits_numSplits[of newCamera setupDir cullFarClip ?cs ?n 0 cullNearClip
            "lp\<lparr>numSplits := 0\<rparr>" lp'] r near0
    by (simp add: leadingSplitsInRange_def)
  have le: "numSplits lp' \<le> ?n"
    using cnt leadingSplitsInRange_le by simp
  show ?thesis
    using LIGHT_DIRECTIONAL r cnt le n4 req
    by (simp add: SetupShadowCameras_def maxSplitsOfType_def MAX_CASCADE_SPLITS_def)
next
  case LIGHT_SPOT
  have "0 < length (splits lp)"
    using assms(1) by (cases "splits lp") (simp_all add: MAX_CUBEMAP_FACES_def)
  then obtain lp1 where "GetOrCreateShadowCamera newCamera 0 lp = Some lp1"
    using GetOrCreateShadowCamera_defined by blast
  then show ?thesis
    using LIGHT_SPOT by (simp add: SetupShadowCameras_def maxSplitsOfType_def)
next
  case LIGHT_POINT
  have "\<forall>i \<in> set [0..<MAX_CUBEMAP_FACES]. i < length (splits lp)"
    using assms(1) by simp
  then obtain lp1 where "pointLightSplits newCamera [0..<MAX_CUBEMAP_FACES] lp = Some lp1"
    using pointLightSplits_defined by blast
  then show ?thesis
    using LIGHT_POINT
    by (simp add: SetupShadowCameras_def maxSplitsOfType_def MAX_CUBEMAP_FACES_def)
qed

theorem SetupShadowCameras_numSplits_witness:
  "map_option numSplits
     (SetupShadowCameras exampleCamera id 1 1000
        (exampleProcessor (exampleLight LIGHT_DIRECTIONAL 4 [10, 100, 400, 1000]) 0
           (replicate 6 (exampleSplit [] [])))) = Some 4 \<and>
   leadingSplitsInRange 1 1000 [10, 100, 400, 1000] 4 = 4"
proof -
  let ?lp = "exampleProcessor (exampleLight LIGHT_DIRECTIONAL 4 [10, 100, 400, 1000]) 0
           (replicate 6 (exampleSplit [] []))"
  have l: "leadingSplitsInRange 1 1000 [10, 100, 400, 1000] 4 = 4"
    by (simp add: leadingSplitsInRange_def splitInRange_def cascadeNear_def cascadeFar_def
        upt_conv_Cons)
  have "MAX_CUBEMAP_FACES \<le> length (splits ?lp)"
    "length (cascadeSplits (light ?lp)) = MAX_CASCADE_SPLITS"
    "0 \<le> numShadowSplits (light ?lp)"
    "numShadowSplits (light ?lp) \<le> int MAX_CASCADE_SPLITS"
    by (simp_all add: exampleProcessor_def exampleLight_def MAX_CUBEMAP_FACES_def
        MAX_CASCADE_SPLITS_def)
  from SetupShadowCameras_numSplits[OF this, of exampleCamera id 1 1000] l
  show ?thesis
    by (auto simp: exampleProcessor_def exampleLight_def)
qed

text \<open>
  C1 as stated counts every entry of the table that is in range. With the camera's near
  clip at 20, its far clip at 1000, two requested splits and the table 10, 100, 0, 0 the
  first entry ends before the near clip, so the loop stops with no active split, while
  the second entry (from 10 to 100) is in range.
\<close>

theorem SetupShadowCameras_counterexample:
  "map_option numSplits
     (SetupShadowCameras exampleCamera id 20 1000
        (exampleProcessor (exampleLight LIGHT_DIRECTIONAL 2 [10, 100, 0, 0]) 0
           (replicate 6 (exampleSplit [] [])))) = Some 0 \<and>
   countSplitsInRange 20 1000 [10, 100, 0, 0] 2 = 1"
  by (simp add: SetupShadowCameras_def exampleProcessor_def exampleLight_def requestedSplits_def
      dirLightSplits.simps countSplitsInRange_def splitInRange_def cascadeNear_def cascadeFar_def
      upt_conv_Cons)

text \<open>
  Both counts agree when the near clip of the camera lies before its far clip and before
  the first split, and the requested entries of the table are strictly increasing.
\<close>

lemma takeWhile_eq_filter_upt:
  assumes "\<And>i j. i < j \<Longrightarrow> j < n \<Longrightarrow> P j \<Longrightarrow> P i"
  shows "takeWhile P [0..<n] = filter P [0..<n]"
  using assms
proof (induction n)
  case 0
  then show ?case by simp
next
  case (Suc n)
  have IH: "takeWhile P [0..<n] = filter P [0..<n]"
    using Suc.IH Suc.prems by (meson less_Suc_eq)
  show ?case
  proof (cases "P n")
    case True
    then have "\<forall>i \<in> set [0..<n]. P i"
      using Suc.prems[of _ n] by auto
    then show ?thesis
      using True by (simp add: takeWhile_append2)
  next
    case False
    have "takeWhile P ([0..<n] @ [n]) = takeWhile P [0..<n]"
    proof (cases "\<forall>i \<in> set [0..<n]. P i")
      case True
      then have a: "takeWhile P [0..<n] = [0..<n]"
        by (simp add: takeWhile_eq_all_conv)
      have "takeWhile P ([0..<n] @ [n]) = [0..<n] @ takeWhile P [n]"
        using True by (intro takeWhile_append2) simp
      also have "\<dots> = [0..<n]" using False by simp
      finally show ?thesis by (simp only: a)
    next
      case False
      then obtain i where "i \<in> set [0..<n]" "\<not> P i" by blast
      then show ?thesis by (simp add: takeWhile_append1)
    qed
    then show ?thesis
      using False IH by simp
  qed
qed

lemma leadingSplitsInRange_eq_count:
  assumes near: "cullNearClip \<le> cullFarClip"
    and first: "0 < n \<longrightarrow> cullNearClip < cascade ! 0"
    and incr: "\<forall>i. Suc i < n \<longrightarrow> cascade ! i < cascade ! Suc i"
  shows "leadingSplitsInRange cullNearClip cullFarClip cascade n =
         countSplitsInRange cullNearClip cullFarClip cascade n"
proof -
  have mono: "cascade ! i \<le> cascade ! j" if "i \<le> j" "j < n" for i j
    using that
  proof (induction j)
    case 0
    then show ?case by simp
  next
    case (Suc j)
    show ?case
    proof (cases "i = Suc j")
      case True
      then show ?thesis by simp
    next
      case False
      then have "i \<le> j" using Suc.prems by simp
      moreover have "j < n" using Suc.prems by simp
      ultimately have "cascade ! i \<le> cascade ! j" using Suc.IH by simp
      also have "\<dots> < cascade ! Suc j" using incr Suc.prems by simp
      finally show ?thesis by simp
    qed
  qed
  have down: "splitInRange cullNearClip cullFarClip cascade i"
    if ij: "i < j" and jn: "j < n" and pj: "splitInRange cullNearClip cullFarClip cascade j" for i j
  proof -
    have "j \<noteq> 0" using ij by simp
    then obtain k where j: "j = Suc k" by (cases j) auto
    have "min cullFarClip (cascade ! k) < min cullFarClip (cascade ! j)"
      using pj j by (simp add: splitInRange_def cascadeNear_def cascadeFar_def)
    then have kfar: "cascade ! k < cullFarClip"
      by (simp add: min_def split: if_splits)
    have ik: "cascade ! i \<le> cascade ! k"
      using mono[of i k] ij jn j by simp
    then have ifar: "cascade ! i < cullFarClip" using kfar by simp
    show ?thesis
    proof (cases i)
      case 0
      then show ?thesis
        using near first ij jn ifar
        by (simp add: splitInRange_def cascadeNear_def cascadeFar_def)
    next
      case (Suc m)
      have "cascade ! m < cascade ! i"
        using incr Suc ij jn by simp
      then show ?thesis
        using Suc ifar
        by (simp add: splitInRange_def cascadeNear_def cascadeFar_def)
    qed
  qed
  show ?thesis
    unfolding leadingSplitsInRange_def countSplitsInRange_def
    using takeWhile_eq_filter_upt[of n "splitInRange cullNearClip cullFarClip cascade"] down
    by simp
qed

subsection \<open>The shadow flag\<close>

text \<open>Bit 2 of the flags of the pipeline state hash is the shadow flag.\<close>

lemma pipelineStateHashFlags_shadow_bit:
  "bit (pipelineStateHashFlags lightTypeValue lp) 2 = hasShadow lp"
  by (simp add: pipelineStateHashFlags_def bit_simps)


lemma updateSplit_hasShadow [simp]: "hasShadow (updateSplit i f lp) = hasShadow lp"
  by (simp add: updateSplit_def)


subsection \<open>Failed shadow map allocation\<close>




subsection \<open>Shadow map finalization without shadow casters\<close>

text \<open>
  C10. For a light with shadow requested, when after the collection of shadow casters none
  of the active splits (the first \<open>numSplits_\<close> entries of \<open>splits_\<close>) holds a shadow
  caster, \<open>FinalizeShadowMap\<close> clears \<open>hasShadow_\<close> and changes nothing else: neither the
  split size nor the shadow map size is computed, and the shadow map of the processor stays
  as it was, the function having no access to the allocator. From then on the light counts
  as unshadowed: the shadow bit in the flags of its pipeline state hash is clear, and
  \<open>CollectShadowBatches\<close> adds no shadow batch for any of its active splits.
\<close>

theorem FinalizeShadowMap_no_casters:
  assumes "hasShadow lp"
    and "numSplits lp \<le> length (splits lp)"
    and "\<forall>i < numSplits lp. shadowCasters (splits lp ! i) = []"
  shows "FinalizeShadowMap lp = lp\<lparr>hasShadow := False\<rparr> \<and>
         \<not> hasShadow (FinalizeShadowMap lp) \<and>
         shadowMapSplitSize (FinalizeShadowMap lp) = shadowMapSplitSize lp \<and>
         shadowMapSize (FinalizeShadowMap lp) = shadowMapSize lp \<and>
         lpShadowMap (FinalizeShadowMap lp) = lpShadowMap lp \<and>
         \<not> bit (pipelineStateHashFlags lightTypeValue (FinalizeShadowMap lp)) 2 \<and>
         (\<forall>splitIndex < numSplits (FinalizeShadowMap lp).
            CollectShadowBatches FindTechnique LookupState defaultMat quality shadowPassIndex
              (lightMask (light lp)) lightHash threadIndex splitIndex
              (shadowCasters (splits (FinalizeShadowMap lp) ! splitIndex)) sb = Some sb)"
proof -
  have "\<not> list_ex hasShadowCaster (take (numSplits lp) (splits lp))"
    using assms(2,3)
    by (auto simp: list_ex_iff hasShadowCaster_def in_set_conv_nth)
  then have eq: "FinalizeShadowMap lp = lp\<lparr>hasShadow := False\<rparr>"
    using assms(1) by (simp add: FinalizeShadowMap_def)
  show ?thesis
    using assms(3) by (simp add: eq pipelineStateHashFlags_shadow_bit)
qed

theorem FinalizeShadowMap_no_casters_witness:
  "FinalizeShadowMap (exampleProcessor (exampleLight LIGHT_SPOT 1 [1000, 0, 0, 0]) 1
     (replicate 6 (exampleSplit [] []))) =
   (exampleProcessor (exampleLight LIGHT_SPOT 1 [1000, 0, 0, 0]) 1
     (replicate 6 (exampleSplit [] [])))\<lparr>hasShadow := False\<rparr> \<and>
   bit (pipelineStateHashFlags lightTypeNumber (exampleProcessor
     (exampleLight LIGHT_SPOT 1 [1000, 0, 0, 0]) 1 (replicate 6 (exampleSplit [] [])))) 2 \<and>
   \<not> bit (pipelineStateHashFlags lightTypeNumber (FinalizeShadowMap (exampleProcessor
     (exampleLight LIGHT_SPOT 1 [1000, 0, 0, 0]) 1 (replicate 6 (exampleSplit [] []))))) 2 \<and>
   shadowMapSize (FinalizeShadowMap (exampleProcessor (exampleLight LIGHT_SPOT 1 [1000, 0, 0, 0]) 1
     (replicate 6 (exampleSplit [exampleDrawable] [])))) = (512, 512)"
proof -
  let ?lp = "exampleProcessor (exampleLight LIGHT_SPOT 1 [1000, 0, 0, 0]) 1
     (replicate 6 (exampleSplit [] []))"
  have "hasShadow ?lp" "numSplits ?lp \<le> length (splits ?lp)"
    "\<forall>i < numSplits ?lp. shadowCasters (splits ?lp ! i) = []"
    by (simp_all add: exampleProcessor_def exampleSplit_def)
  note th = FinalizeShadowMap_no_casters[OF this, where lightTypeValue = lightTypeNumber
      and FindTechnique = exampleTechnique and LookupState = "\<lambda>batch hash. None"
      and defaultMat = 0 and quality = 0 and shadowPassIndex = 0 and lightHash = 0
      and threadIndex = 0 and sb = "\<lparr>shadowBatches = [], batchesDirty = [[]]\<rparr>"]
  have "FinalizeShadowMap ?lp = ?lp\<lparr>hasShadow := False\<rparr>"
    using th by (rule conjunct1)
  moreover have "\<not> bit (pipelineStateHashFlags lightTypeNumber (FinalizeShadowMap ?lp)) 2"
    using th by blast
  moreover have "bit (pipelineStateHashFlags lightTypeNumber ?lp) 2"
    by (simp add: pipelineStateHashFlags_shadow_bit exampleProcessor_def)
  moreover have "shadowMapSize (FinalizeShadowMap (exampleProcessor
     (exampleLight LIGHT_SPOT 1 [1000, 0, 0, 0]) 1 (replicate 6 (exampleSplit [exampleDrawable] [])))) = (512, 512)"
    by (simp add: FinalizeShadowMap_def exampleProcessor_def exampleSplit_def exampleLight_def
        hasShadowCaster_def GetSplitsGridSize_def numeral_eq_Suc Let_def)
  ultimately show ?thesis by simp
qed

section \<open>Rounding to single precision\<close>

text \<open>
  Rounding leaves the numbers of the format as they are, and moves any other number by
  at most half the spacing around it.
\<close>

lemma roundHalfEven_of_int [simp]: "roundHalfEven (of_int n) = n"
  by (simp add: roundHalfEven_def)

lemma roundHalfEven_error: "\<bar>of_int (roundHalfEven y) - y\<bar> \<le> 1 / 2"
  unfolding roundHalfEven_def Let_def
  by (auto simp: abs_le_iff)

lemma binary32Ulp_pos [simp]: "0 < binary32Ulp x"
  by (simp add: binary32Ulp_def)

lemma binary32Ulp_nonzero [simp]: "binary32Ulp x \<noteq> 0"
  using binary32Ulp_pos[of x] by linarith

lemma binary32Ulp_abs [simp]: "\<bar>binary32Ulp x\<bar> = binary32Ulp x"
  using binary32Ulp_pos[of x] by linarith

lemma floor_log2_less:
  assumes "x \<noteq> 0" "\<bar>x\<bar> < 2 powi n"
  shows "\<lfloor>Transcendental.log 2 \<bar>x\<bar>\<rfloor> < n"
proof -
  have "\<bar>x\<bar> < 2 powr (of_int n)"
    using assms(2) by (simp add: powr_real_of_int')
  then have "Transcendental.log 2 \<bar>x\<bar> < of_int n"
    using assms(1) by (simp add: log_less_iff)
  then show ?thesis
    by (simp add: floor_less_iff)
qed

lemma floor_log2_ge:
  assumes "2 powi n \<le> \<bar>x\<bar>"
  shows "n \<le> \<lfloor>Transcendental.log 2 \<bar>x\<bar>\<rfloor>"
proof -
  have pos: "0 < \<bar>x\<bar>"
    using assms by (smt (verit) zero_less_power_int)
  have "2 powr (of_int n) \<le> \<bar>x\<bar>"
    using assms by (simp add: powr_real_of_int')
  then have "of_int n \<le> Transcendental.log 2 \<bar>x\<bar>"
    using pos by (simp add: le_log_iff)
  then show ?thesis
    by (simp add: le_floor_iff)
qed

lemma floor_log2_eq:
  assumes "2 powi n \<le> \<bar>x\<bar>" "\<bar>x\<bar> < 2 powi (n + 1)"
  shows "\<lfloor>Transcendental.log 2 \<bar>x\<bar>\<rfloor> = n"
proof -
  have "x \<noteq> 0" using assms(1) by (smt (verit) zero_less_power_int)
  then show ?thesis
    using floor_log2_less[OF _ assms(2)] floor_log2_ge[OF assms(1)] by simp
qed

lemma pow2_floor_log2_le:
  assumes "x \<noteq> 0"
  shows "2 powi \<lfloor>Transcendental.log 2 \<bar>x\<bar>\<rfloor> \<le> \<bar>x\<bar>"
proof -
  have "2 powr (of_int \<lfloor>Transcendental.log 2 \<bar>x\<bar>\<rfloor>) \<le> 2 powr (Transcendental.log 2 \<bar>x\<bar>)"
    by (intro powr_mono) simp_all
  also have "\<dots> = \<bar>x\<bar>"
    using assms by simp
  finally show ?thesis
    by (simp add: powr_real_of_int')
qed

lemma roundBinary32_exact:
  fixes M k :: int
  assumes M: "\<bar>M\<bar> < 2 ^ 24" and k: "- 149 \<le> k"
    and range: "\<bar>of_int M * 2 powi k\<bar> < (2::real) ^ 128"
  shows "roundBinary32 (of_int M * 2 powi k) = Some (of_int M * 2 powi k)"
proof (cases "M = 0")
  case True
  then show ?thesis by (simp add: roundBinary32_def)
next
  case False
  let ?x = "of_int M * 2 powi k :: real"
  have x0: "?x \<noteq> 0" using False by simp
  have "\<bar>?x\<bar> = \<bar>of_int M\<bar> * 2 powi k"
    by (simp add: abs_mult)
  also have "\<dots> < 2 ^ 24 * 2 powi k"
    using M by (intro mult_strict_right_mono) (simp_all flip: of_int_abs)
  also have "\<dots> = 2 powi (24 + k)"
    by (simp add: power_int_add)
  finally have "\<lfloor>Transcendental.log 2 \<bar>?x\<bar>\<rfloor> < 24 + k"
    using floor_log2_less[OF x0] by blast
  then have e: "max \<lfloor>Transcendental.log 2 \<bar>?x\<bar>\<rfloor> (- 126) - 23 \<le> k"
    using k by simp
  define j where "j = k - (max \<lfloor>Transcendental.log 2 \<bar>?x\<bar>\<rfloor> (- 126) - 23)"
  have j0: "0 \<le> j" using e by (simp add: j_def)
  have u: "binary32Ulp ?x = 2 powi (k - j)"
    by (simp add: binary32Ulp_def j_def)
  have "?x / binary32Ulp ?x = of_int M * 2 powi j"
    unfolding u by (simp add: power_int_diff)
  also have "\<dots> = of_int (M * 2 ^ nat j)"
    using j0 by (simp add: power_int_nonneg_exp)
  finally have q: "?x / binary32Ulp ?x = of_int (M * 2 ^ nat j)" .
  have "of_int (M * 2 ^ nat j) * binary32Ulp ?x = ?x"
    using q binary32Ulp_pos[of ?x] by (metis less_irrefl nonzero_divide_eq_eq)
  then have "of_int (roundHalfEven (?x / binary32Ulp ?x)) * binary32Ulp ?x = ?x"
    unfolding q roundHalfEven_of_int .
  then show ?thesis
    using x0 range by (simp add: roundBinary32_def Let_def)
qed

lemma roundBinary32_error:
  assumes lo: "2 powi e \<le> \<bar>x\<bar>" and hi: "\<bar>x\<bar> < 2 powi (e + 1)"
    and e: "- 126 \<le> e" "e \<le> 126"
  shows "\<exists>r. roundBinary32 x = Some r \<and> \<bar>r - x\<bar> \<le> 2 powi (e - 24)"
proof -
  have x0: "x \<noteq> 0" using lo by (smt (verit) zero_less_power_int)
  have fl: "\<lfloor>Transcendental.log 2 \<bar>x\<bar>\<rfloor> = e" using floor_log2_eq[OF lo hi] .
  have u: "binary32Ulp x = 2 powi (e - 23)"
    using e by (simp add: binary32Ulp_def fl)
  let ?r = "of_int (roundHalfEven (x / binary32Ulp x)) * binary32Ulp x"
  have "?r - x = (of_int (roundHalfEven (x / binary32Ulp x)) - x / binary32Ulp x) * binary32Ulp x"
    by (simp add: left_diff_distrib)
  then have "\<bar>?r - x\<bar> = \<bar>of_int (roundHalfEven (x / binary32Ulp x)) - x / binary32Ulp x\<bar> * binary32Ulp x"
    by (simp add: abs_mult)
  also have "\<dots> \<le> 1 / 2 * binary32Ulp x"
    by (intro mult_right_mono roundHalfEven_error less_imp_le binary32Ulp_pos)
  also have "\<dots> = 2 powi (e - 24)"
    unfolding u by (simp add: power_int_diff)
  finally have err: "\<bar>?r - x\<bar> \<le> 2 powi (e - 24)" .
  have "2 powi (e - 24) \<le> (2::real) powi (e + 1)"
    by (intro power_int_increasing) simp_all
  then have "\<bar>?r\<bar> < 2 * 2 powi (e + 1)"
    using err hi by linarith
  also have "2 * 2 powi (e + 1) = (2::real) powi (e + 2)"
    by (simp add: power_int_add)
  also have "\<dots> \<le> 2 powi 128"
    using e by (intro power_int_increasing) simp_all
  finally have "\<bar>?r\<bar> < 2 ^ 128" by simp
  then show ?thesis
    using x0 err by (simp add: roundBinary32_def Let_def)
qed

lemma roundBinary32_eval:
  assumes lo: "2 powi e \<le> \<bar>x\<bar>" and hi: "\<bar>x\<bar> < 2 powi (e + 1)"
    and e: "- 126 \<le> e" "e \<le> 126"
  shows "roundBinary32 x = Some (of_int (roundHalfEven (x / 2 powi (e - 23))) * 2 powi (e - 23))"
proof -
  have x0: "x \<noteq> 0" using lo by (smt (verit) zero_less_power_int)
  have u: "binary32Ulp x = 2 powi (e - 23)"
    using e floor_log2_eq[OF lo hi] by (simp add: binary32Ulp_def)
  obtain r where "roundBinary32 x = Some r"
    using roundBinary32_error[OF assms] by blast
  then show ?thesis
    using x0 u by (simp add: roundBinary32_def Let_def split: if_splits)
qed

lemma roundBinary32_nonneg:
  assumes "0 \<le> x" "roundBinary32 x = Some r"
  shows "0 \<le> r"
proof (cases "x = 0")
  case True
  then show ?thesis using assms by (simp add: roundBinary32_def)
next
  case False
  have "0 \<le> x / binary32Ulp x"
    using assms(1) by (simp add: less_imp_le)
  then have "0 \<le> roundHalfEven (x / binary32Ulp x)"
    by (auto simp: roundHalfEven_def Let_def)
  then have "0 \<le> of_int (roundHalfEven (x / binary32Ulp x)) * binary32Ulp x"
    by (simp add: less_imp_le)
  then show ?thesis
    using assms(2) False by (simp add: roundBinary32_def Let_def split: if_splits)
qed

section \<open>Quantization of the directional shadow camera\<close>

subsection \<open>Sizes on the quantization grid\<close>

lemma roundBinary32_nat:
  assumes "n < 2 ^ 24"
  shows "roundBinary32 (of_nat n) = Some (of_nat n)"
proof -
  have "\<bar>int n\<bar> < 2 ^ 24" using assms by simp
  moreover have "\<bar>of_int (int n) * 2 powi 0\<bar> < (2::real) ^ 128"
  proof -
    have "real n < 2 ^ 24" using assms by (metis of_nat_less_iff of_nat_numeral of_nat_power)
    also have "\<dots> < (2::real) ^ 128" by simp
    finally show ?thesis by simp
  qed
  ultimately show ?thesis
    using roundBinary32_exact[of "int n" 0] by simp
qed

lemma square_less_2_24:
  assumes "n < (4096::nat)"
  shows "n * n < 2 ^ 24"
proof -
  have "n * n \<le> 4095 * 4095"
    using assms by (intro mult_mono) simp_all
  then show ?thesis by simp
qed


lemma float_mul_grid:
  assumes q: "q = 2 powi k" "- 100 \<le> k" "k \<le> 100" and n: "n < 4096"
  shows "float_mul (of_nat n) (of_nat n) = Some (of_nat (n * n))"
    and "float_mul (of_nat (n * n)) q = Some (of_nat n * of_nat n * q)"
proof -
  have nn: "n * n < 2 ^ 24" using square_less_2_24[OF n] .
  show "float_mul (of_nat n) (of_nat n) = Some (of_nat (n * n))"
    using roundBinary32_nat[OF nn] by (simp add: float_mul_def)
  have a: "\<bar>int (n * n)\<bar> < 2 ^ 24" using nn by (metis abs_of_nat of_nat_less_iff of_nat_numeral of_nat_power)
  have "\<bar>of_int (int (n * n)) * 2 powi k\<bar> = real (n * n) * 2 powi k"
    by (simp add: abs_mult)
  also have "\<dots> \<le> 2 ^ 24 * 2 powi k"
  proof -
    have "real (n * n) \<le> 2 ^ 24" using nn by (metis less_imp_le of_nat_le_iff of_nat_numeral of_nat_power)
    then show ?thesis by (intro mult_right_mono) simp_all
  qed
  also have "\<dots> \<le> 2 ^ 24 * 2 powi 100"
    using q(3) by (intro mult_left_mono power_int_increasing) simp_all
  also have "\<dots> < (2::real) ^ 128" by simp
  finally have r: "\<bar>of_int (int (n * n)) * 2 powi k\<bar> < (2::real) ^ 128" .
  have "- 149 \<le> k" using q(2) by simp
  from roundBinary32_exact[OF a this r]
  show "float_mul (of_nat (n * n)) q = Some (of_nat n * of_nat n * q)"
    by (simp add: float_mul_def q(1))
qed



text \<open>
  The produced size is on the grid when the step is a power of two, the number of steps
  is below 4096, and either the clamp does not raise the size or the minimum view size is
  on the grid itself.
\<close>

lemma quantizeSteps_nat:
  assumes "quantizeSteps q x = Some n"
  shows "\<exists>N::nat. n = of_nat N"
proof -
  obtain d r where "sqrtf d = Some r" "n = ceilf r"
    using assms by (auto simp: quantizeSteps_def Option.bind_eq_Some_conv)
  then have "0 \<le> r" "n = of_int \<lceil>r\<rceil>"
    using roundBinary32_nonneg[of "sqrt d" r]
    by (auto simp: sqrtf_def ceilf_def split: if_splits)
  then have "n = of_nat (nat \<lceil>r\<rceil>)"
    by simp
  then show ?thesis by blast
qed

lemma quantizedSize_onQuantizationGrid:
  assumes p: "isPowerOfTwo q"
    and s: "quantizeSteps q x = Some n" "n < 4096"
    and m: "minV \<le> n * n * q \<or> onQuantizationGrid q minV"
  shows "\<exists>s. quantizedSize q minV x = Some s \<and> onQuantizationGrid q s"
proof -
  obtain k where k: "q = 2 powi k" "- 100 \<le> k" "k \<le> 100"
    using p by (auto simp: isPowerOfTwo_def)
  obtain N :: nat where N: "n = of_nat N"
    using quantizeSteps_nat[OF s(1)] by blast
  have N4: "N < 4096" using s(2) N by simp
  have v: "quantizedSize q minV x = Some (max (of_nat N * of_nat N * q) minV)"
    unfolding quantizedSize_def s(1) N
    using float_mul_grid[OF k N4] by (simp del: of_nat_mult)
  have g: "onQuantizationGrid q (of_nat N * of_nat N * q)"
    unfolding onQuantizationGrid_def using N4 by blast
  have "onQuantizationGrid q (max (of_nat N * of_nat N * q) minV)"
    using m g N by (auto simp: max_def)
  then show ?thesis using v by simp
qed

subsection \<open>Evaluation\<close>

lemma ceilf_sqrtf:
  fixes n e :: int
  assumes y: "0 \<le> lo" "lo\<^sup>2 \<le> y" "y \<le> hi\<^sup>2" "0 \<le> hi"
    and e: "2 powi e \<le> lo" "hi < 2 powi (e + 1)" "- 126 \<le> e" "e \<le> 126"
    and n: "of_int n - 1 + 2 powi (e - 24) < lo" "hi + 2 powi (e - 24) \<le> of_int n"
  shows "map_option ceilf (sqrtf y) = Some (of_int n)"
proof -
  have y0: "0 \<le> y" using y(2) by (smt (verit) zero_le_power2)
  have l: "lo \<le> sqrt y" using y(1,2) by (simp add: real_le_rsqrt)
  have h: "sqrt y \<le> hi" using y(3,4) by (simp add: real_le_lsqrt)
  have "2 powi e \<le> \<bar>sqrt y\<bar>" "\<bar>sqrt y\<bar> < 2 powi (e + 1)"
    using l h e(1,2) y0 by simp_all
  from roundBinary32_error[OF this e(3,4)] obtain r where
    r: "roundBinary32 (sqrt y) = Some r" "\<bar>r - sqrt y\<bar> \<le> 2 powi (e - 24)"
    by blast
  have "of_int n - 1 < r" "r \<le> of_int n"
    using r(2) l h n by linarith+
  then have "\<lceil>r\<rceil> = n"
    by (intro ceiling_unique) simp_all
  then show ?thesis
    using r(1) y0 by (simp add: sqrtf_def ceilf_def)
qed


lemma float_mul_exact:
  fixes M k :: int
  assumes "a * b = of_int M * 2 powi k" "\<bar>M\<bar> < 2 ^ 24" "- 100 \<le> k" "k \<le> 100"
  shows "float_mul a b = Some (of_int M * 2 powi k)"
proof -
  have "\<bar>real_of_int M\<bar> \<le> 2 ^ 24"
    using assms(2) by (metis abs_le_iff less_imp_le of_int_abs of_int_le_iff of_int_numeral of_int_power)
  then have "\<bar>of_int M * 2 powi k\<bar> \<le> 2 ^ 24 * (2::real) powi k"
    by (simp add: abs_mult mult_right_mono)
  also have "\<dots> \<le> 2 ^ 24 * 2 powi 100"
    using assms(4) by (intro mult_left_mono power_int_increasing) simp_all
  also have "\<dots> < (2::real) ^ 128" by simp
  finally have "\<bar>of_int M * 2 powi k\<bar> < (2::real) ^ 128" .
  then show ?thesis
    using roundBinary32_exact[of M k] assms by (simp add: float_mul_def)
qed








lemma roundBinary32_13: "roundBinary32 (13 / 10) = Some quantize13"
proof -
  have "roundBinary32 (13 / 10) =
          Some (of_int (roundHalfEven (13 / 10 / 2 powi (0 - 23))) * 2 powi (0 - 23))"
    by (rule roundBinary32_eval) simp_all
  moreover have "roundHalfEven (13 / 10 / 2 powi (0 - 23)) = 10905190"
    by (simp add: roundHalfEven_def Let_def)
  ultimately show ?thesis
    by (simp add: quantize13_def)
qed

lemma float_div_255_quantize13: "float_div 255 quantize13 = Some (12855139 / 2 ^ 16)"
proof -
  have "roundBinary32 (255 / quantize13) =
          Some (of_int (roundHalfEven (255 / quantize13 / 2 powi (7 - 23))) * 2 powi (7 - 23))"
    by (rule roundBinary32_eval) (simp_all add: quantize13_def)
  moreover have "roundHalfEven (255 / quantize13 / 2 powi (7 - 23)) = 12855139"
    by (simp add: roundHalfEven_def quantize13_def Let_def)
  ultimately show ?thesis
    by (simp add: float_div_def quantize13_def)
qed

lemma float_mul_225_quantize13: "float_mul 225 quantize13 = Some (585 / 2)"
proof -
  have "roundBinary32 (225 * quantize13) =
          Some (of_int (roundHalfEven (225 * quantize13 / 2 powi (8 - 23))) * 2 powi (8 - 23))"
    by (rule roundBinary32_eval) (simp_all add: quantize13_def)
  moreover have "roundHalfEven (225 * quantize13 / 2 powi (8 - 23)) = 9584640"
    by (simp add: roundHalfEven_def quantize13_def Let_def)
  ultimately show ?thesis
    by (simp add: float_mul_def)
qed

lemma float_div_585_quantize13: "float_div (585 / 2) quantize13 = Some (14745601 / 2 ^ 16)"
proof -
  have "roundBinary32 (585 / 2 / quantize13) =
          Some (of_int (roundHalfEven (585 / 2 / quantize13 / 2 powi (7 - 23))) * 2 powi (7 - 23))"
    by (rule roundBinary32_eval) (simp_all add: quantize13_def)
  moreover have "roundHalfEven (585 / 2 / quantize13 / 2 powi (7 - 23)) = 14745601"
    by (simp add: roundHalfEven_def quantize13_def Let_def)
  ultimately show ?thesis
    by (simp add: float_div_def quantize13_def)
qed

lemma quantizeSteps_quantize13:
  "quantizeSteps quantize13 255 = Some 15"
  "quantizeSteps quantize13 (585 / 2) = Some 16"
proof -
  have "map_option ceilf (sqrtf (12855139 / 2 ^ 16)) = Some (of_int 15)"
    by (rule ceilf_sqrtf[where lo = "14005 / 1000" and hi = "1401 / 100" and e = 3])
       (simp_all add: power2_eq_square)
  then show "quantizeSteps quantize13 255 = Some 15"
    by (simp add: quantizeSteps_def float_div_255_quantize13)
  have "map_option ceilf (sqrtf (14745601 / 2 ^ 16)) = Some (of_int 16)"
    by (rule ceilf_sqrtf[where lo = "15 + 17 / 2 ^ 25" and hi = "151 / 10" and e = 3])
       (simp_all add: power2_eq_square)
  then show "quantizeSteps quantize13 (585 / 2) = Some 16"
    by (simp add: quantizeSteps_def float_div_585_quantize13)
qed

lemma quantizedSize_quantize13:
  "quantizedSize quantize13 3 255 = Some (585 / 2)"
  "quantizedSize quantize13 3 (585 / 2) = Some (5452595 / 16384)"
proof -
  have a: "float_mul 15 15 = Some 225" "float_mul 16 16 = Some 256"
    using float_mul_exact[of 15 15 225 0] float_mul_exact[of 16 16 256 0] by simp_all
  have b: "float_mul 256 quantize13 = Some (5452595 / 16384)"
    using float_mul_exact[of 256 quantize13 10905190 "- 15"] by (simp add: quantize13_def)
  show "quantizedSize quantize13 3 255 = Some (585 / 2)"
    by (simp add: quantizedSize_def quantizeSteps_quantize13 a float_mul_225_quantize13)
  show "quantizedSize quantize13 3 (585 / 2) = Some (5452595 / 16384)"
    by (simp add: quantizedSize_def quantizeSteps_quantize13 a b)
qed

subsection \<open>Requantization\<close>




text \<open>
  It also fails by rounding when the step is not a power of two: with the step 1.3 and
  the clamp out of the way, 255 is quantized to 292.5 in 15 steps, the division of 292.5
  by the step rounds to a number above 225, and 292.5 is quantized to 16 steps.
\<close>

lemma quantizeViewSize_rounding_example:
  "quantizeViewSize (defaultFocus\<lparr>quantize := quantize13\<rparr>) (255, 255) = Some (585 / 2, 585 / 2) \<and>
   quantizeViewSize (defaultFocus\<lparr>quantize := quantize13\<rparr>) (585 / 2, 585 / 2)
     = Some (5452595 / 16384, 5452595 / 16384)"
  by (simp add: quantizeViewSize_def defaultFocus_def quantizedSize_quantize13)

section \<open>Focusing of the directional shadow camera\<close>

text \<open>
  C7. With focusing enabled, when clipping the volume of the split frustum by the defined
  box of the lit geometries gives an empty polyhedron, the volume is the polyhedron of the
  whole split frustum again. Whatever the clipping does, a split frustum with a non-empty
  polyhedron never gives an empty volume, so the shadow box is not fitted to one.
\<close>

theorem dirLightFrustumVolume_restored:
  "(focusing \<and> litGeometriesBox = Some box \<and> Empty (Clip (Define splitFrustum) box) \<longrightarrow>
      dirLightFrustumVolume Define Clip Empty focusing splitFrustum litGeometriesBox
        = Define splitFrustum) \<and>
   (\<not> Empty (Define splitFrustum) \<longrightarrow>
      \<not> Empty (dirLightFrustumVolume Define Clip Empty focusing splitFrustum litGeometriesBox))"
  by (auto simp: dirLightFrustumVolume_def Let_def split: option.splits)

theorem dirLightFrustumVolume_restored_witness:
  "dirLightFrustumVolume (\<lambda>f. [f, Suc f]) (\<lambda>p b. filter (\<lambda>x. x < b) p) (\<lambda>p. p = [])
     True (5::nat) (Some (0::nat)) = [5, 6] \<and>
   filter (\<lambda>x. x < (0::nat)) [5::nat, 6] = [] \<and>
   dirLightFrustumVolume (\<lambda>f. [f, Suc f]) (\<lambda>p b. filter (\<lambda>x. x < b) p) (\<lambda>p. p = [])
     True (5::nat) (Some (6::nat)) = [5]"
proof -
  have e: "(\<lambda>p. p = []) ((\<lambda>p b. filter (\<lambda>x. x < b) p) ((\<lambda>f. [f, Suc f]) (5::nat)) (0::nat))"
    by simp
  have "dirLightFrustumVolume (\<lambda>f. [f, Suc f]) (\<lambda>p b. filter (\<lambda>x. x < b) p) (\<lambda>p. p = [])
     True (5::nat) (Some (0::nat)) = [5, 6]"
    using dirLightFrustumVolume_restored[of True "Some (0::nat)" 0 "\<lambda>p. p = []"
        "\<lambda>p b. filter (\<lambda>x. x < b) p" "\<lambda>f. [f, Suc f]" "5::nat"] e
    by simp
  moreover have "dirLightFrustumVolume (\<lambda>f. [f, Suc f]) (\<lambda>p b. filter (\<lambda>x. x < b) p)
     (\<lambda>p. p = []) True (5::nat) (Some (6::nat)) = [5]"
    by (simp add: dirLightFrustumVolume_def)
  ultimately show ?thesis by simp
qed

section \<open>Visibility and lighting of drawables\<close>

subsection \<open>The example frame\<close>

lemma exampleFrame_simps:
  "isDrawableUpdated exampleFrame = [False, False, False, False]"
  "geometryFlags exampleFrame = [{}, {}, {}, {}]"
  "geometryZRanges exampleFrame = [(0, 0), (0, 0), (0, 0), (0, 0)]"
  "geometryLighting exampleFrame = [0, 0, 0, 0]"
  "sceneZRangeTemp exampleFrame = [None, None]"
  "visibleGeometries exampleFrame = [[], []]"
  "threadedGeometryUpdates exampleFrame = [[], []]"
  "nonThreadedGeometryUpdates exampleFrame = [[], []]"
  "visibleLightsTemp exampleFrame = [[], []]"
  "map geometryBatches (passes exampleFrame) = [[[], []]]"
  "visibleLights exampleFrame = []"
  "lightProcessorCache exampleFrame = \<lparr>cache = Map.empty, numProcessors = 0\<rparr>"
  "log exampleFrame = []"
  by (simp_all add: exampleFrame_def OnUpdateBegin_def initialDrawableProcessor_def resize_def
      passOnUpdateBegin_def numeral_eq_Suc)

lemma exampleFrame_indicesInRange:
  "indicesInRange t i exampleFrame = (t < 2 \<and> i < 4)"
proof -
  have "list_all (\<lambda>pass. t < length (geometryBatches pass)) (passes exampleFrame) =
        list_all (\<lambda>n. t < n) (map length (map geometryBatches (passes exampleFrame)))"
    by (simp add: list_all_iff)
  then show ?thesis
    by (auto simp add: indicesInRange_def exampleFrame_simps)
qed

lemma isVisibleLight_examples:
  "isVisibleLight (visibleLight i n)" "\<not> isVisibleLight farDrawable"
  by (simp_all add: isVisibleLight_def visibleLight_def exampleLight_def exampleDrawable_def
      farDrawable_def)

subsection \<open>Drawables beyond their draw distance\<close>

text \<open>
  C4. For a drawable with a positive draw distance whose distance from the camera exceeds
  it, \<open>ProcessVisibleDrawable\<close> returns with only the update mark of the drawable set:
  the drawable is added neither to the visible geometries nor to the visible lights, its
  geometry render flags are untouched, so they remain zero, and no pass gets a batch.
\<close>

theorem ProcessVisibleDrawable_beyond_draw_distance:
  assumes "drawDistance drawable > 0"
    and "distance drawable > drawDistance drawable"
    and "indicesInRange threadIndex (drawableIndex drawable) dp"
  shows "\<exists>dp'. ProcessVisibleDrawable FindTechnique ResetLights ambient threadIndex drawable dp = Some dp' \<and>
           dp' = dp\<lparr>isDrawableUpdated := (isDrawableUpdated dp)[drawableIndex drawable := True]\<rparr> \<and>
           visibleGeometries dp' = visibleGeometries dp \<and>
           visibleLightsTemp dp' = visibleLightsTemp dp \<and>
           geometryFlags dp' = geometryFlags dp \<and>
           passes dp' = passes dp \<and>
           (geometryFlags dp ! drawableIndex drawable = {} \<longrightarrow>
              geometryFlags dp' ! drawableIndex drawable = {})"
  using assms by (simp add: ProcessVisibleDrawable_def Let_def)

theorem ProcessVisibleDrawable_beyond_draw_distance_witness:
  "ProcessVisibleDrawable exampleTechnique id (\<lambda>useGI d a. a) 1 farDrawable exampleFrame =
     Some (exampleFrame\<lparr>isDrawableUpdated := [False, True, False, False]\<rparr>) \<and>
   geometryFlags exampleFrame ! 1 = {}"
proof -
  have "drawDistance farDrawable > 0" "distance farDrawable > drawDistance farDrawable"
    "indicesInRange 1 (drawableIndex farDrawable) exampleFrame"
    by (simp_all add: farDrawable_def exampleFrame_indicesInRange)
  from ProcessVisibleDrawable_beyond_draw_distance[OF this, of exampleTechnique id "\<lambda>useGI d a. a"]
  show ?thesis
    by (auto simp: farDrawable_def exampleFrame_simps)
qed

subsection \<open>Invalid light index\<close>

text \<open>
  C8. \<open>ProcessForwardLighting\<close> with a light index that is not below the number of
  visible lights returns normally with one error message added to the log and nothing else
  changed; in particular no light accumulator of a drawable is modified.
\<close>

theorem ProcessForwardLighting_invalid_index:
  assumes "lightIndex \<ge> length (visibleLights dp)"
  shows "\<exists>dp'. ProcessForwardLighting AccumulateLight GetDistanceTo largeEpsilon lightIndex
             litGeometries dp = Some dp' \<and>
           dp' = dp\<lparr>log := log dp @ [(''Invalid light index {}'', lightIndex)]\<rparr> \<and>
           geometryLighting dp' = geometryLighting dp"
  using assms by (simp add: ProcessForwardLighting_def)

theorem ProcessForwardLighting_invalid_index_witness:
  "ProcessForwardLighting (\<lambda>ctx penalty a. Suc a) (\<lambda>l d. 1) (1 / 20000) 3 [exampleDrawable]
     exampleFrame = Some (exampleFrame\<lparr>log := [(''Invalid light index {}'', 3)]\<rparr>)"
proof -
  have "3 \<ge> length (visibleLights exampleFrame)"
    by (simp add: exampleFrame_simps)
  from ProcessForwardLighting_invalid_index[OF this, of "\<lambda>ctx penalty a. Suc a" "\<lambda>l d. 1"
      "1 / 20000" "[exampleDrawable]"]
  show ?thesis
    by (auto simp: exampleFrame_simps)
qed

subsection \<open>The list of visible lights\<close>

lemma length_PushBack [simp]: "length (PushBack t x xss) = length xss"
  by (simp add: PushBack_def)

lemma mset_concat_PushBack:
  "t < length xss \<Longrightarrow> mset (concat (PushBack t x xss)) = mset (concat xss) + {#x#}"
proof (induction xss arbitrary: t)
  case Nil
  then show ?case by simp
next
  case (Cons ys xss)
  show ?case
  proof (cases t)
    case 0
    then show ?thesis by (simp add: PushBack_def)
  next
    case (Suc t')
    then have "t' < length xss" using Cons.prems by simp
    from Cons.IH[OF this] Suc show ?thesis
      by (simp add: PushBack_def)
  qed
qed

lemma QueueDrawableGeometryUpdate_visibleLightsTemp [simp]:
  "visibleLightsTemp (QueueDrawableGeometryUpdate t d dp) = visibleLightsTemp dp"
  by (simp add: QueueDrawableGeometryUpdate_def)

lemma processGeometry_visibleLightsTemp [simp]:
  "visibleLightsTemp (processGeometry ft rl am t d dp) = visibleLightsTemp dp"
  by (simp add: processGeometry_def Let_def split: prod.splits)

lemma ProcessVisibleDrawable_visibleLightsTemp:
  assumes "ProcessVisibleDrawable ft rl am t d dp = Some dp'"
  shows "visibleLightsTemp dp' =
           (if isVisibleLight d then PushBack t d (visibleLightsTemp dp) else visibleLightsTemp dp)"
  using assms
  by (auto simp: ProcessVisibleDrawable_def isVisibleLight_def Let_def split: if_splits)

lemma AddBatch_length:
  "AddBatch t d i tech p = (p', a, l) \<Longrightarrow> length (geometryBatches p') = length (geometryBatches p)"
  by (auto simp: AddBatch_def Let_def split: if_splits)

lemma updateScenePasses_lengths:
  "updateScenePasses t d i tech ps fl na = (ps', fl', na') \<Longrightarrow>
   map (\<lambda>p. length (geometryBatches p)) ps' = map (\<lambda>p. length (geometryBatches p)) ps"
proof (induction ps arbitrary: fl na ps' fl' na')
  case Nil
  then show ?case by simp
next
  case (Cons p ps)
  obtain p1 a l where ab: "AddBatch t d i tech p = (p1, a, l)"
    by (cases "AddBatch t d i tech p") auto
  obtain r1 f1 n1 where rec: "updateScenePasses t d i tech ps (fl \<or> l) (na \<or> l \<or> (a \<and> needAmbient p)) = (r1, f1, n1)"
    by (cases "updateScenePasses t d i tech ps (fl \<or> l) (na \<or> l \<or> (a \<and> needAmbient p))") auto
  have "ps' = p1 # r1"
    using Cons.prems ab rec by simp
  then show ?case
    using Cons.IH[OF rec] AddBatch_length[OF ab] by simp
qed

lemma collectBatches_lengths:
  "collectBatches ft dm q t n d is ps fl na = (ps', fl', na') \<Longrightarrow>
   map (\<lambda>p. length (geometryBatches p)) ps' = map (\<lambda>p. length (geometryBatches p)) ps"
proof (induction "is" arbitrary: ps fl na)
  case Nil
  then show ?case by simp
next
  case (Cons i rest)
  let ?mat = "case material (batches d ! i) of Some m \<Rightarrow> m | None \<Rightarrow> dm"
  show ?case
  proof (cases "ft ?mat d q")
    case None
    then show ?thesis
      using Cons.prems Cons.IH[of ps fl na] by (simp add: Let_def)
  next
    case (Some tech)
    obtain ps1 f1 n1 where u: "updateScenePasses t d i tech ps fl na = (ps1, f1, n1)"
      by (cases "updateScenePasses t d i tech ps fl na") auto
    have "collectBatches ft dm q t n d rest ps1 f1 n1 = (ps', fl', na')"
      using Cons.prems Some u by (simp add: Let_def)
    from Cons.IH[OF this] updateScenePasses_lengths[OF u] show ?thesis
      by simp
  qed
qed

lemma list_all_lengths:
  "list_all (\<lambda>pass. t < length (geometryBatches pass)) ps =
   list_all (\<lambda>n. t < n) (map (\<lambda>p. length (geometryBatches p)) ps)"
  by (simp add: list_all_iff)

lemma indicesInRange_cong:
  assumes "length (isDrawableUpdated dp') = length (isDrawableUpdated dp)"
    and "length (geometryFlags dp') = length (geometryFlags dp)"
    and "length (geometryZRanges dp') = length (geometryZRanges dp)"
    and "length (geometryLighting dp') = length (geometryLighting dp)"
    and "length (sceneZRangeTemp dp') = length (sceneZRangeTemp dp)"
    and "length (visibleGeometries dp') = length (visibleGeometries dp)"
    and "length (threadedGeometryUpdates dp') = length (threadedGeometryUpdates dp)"
    and "length (nonThreadedGeometryUpdates dp') = length (nonThreadedGeometryUpdates dp)"
    and "length (visibleLightsTemp dp') = length (visibleLightsTemp dp)"
    and "map (\<lambda>p. length (geometryBatches p)) (passes dp') =
         map (\<lambda>p. length (geometryBatches p)) (passes dp)"
  shows "indicesInRange t i dp' = indicesInRange t i dp"
  using assms by (simp add: indicesInRange_def list_all_lengths)

lemma processGeometry_indicesInRange:
  "indicesInRange t' i' (processGeometry ft rl am t d dp) = indicesInRange t' i' dp"
proof -
  let ?zr = "CalculateBoundingBoxZRange dp (worldBoundingBox d)"
  let ?dp1 = "(if \<not> IsValid ?zr
                 then dp\<lparr>geometryZRanges :=
                          (geometryZRanges dp)[drawableIndex d := (M_LARGE_VALUE, M_LARGE_VALUE)]\<rparr>
                 else dp\<lparr>geometryZRanges := (geometryZRanges dp)[drawableIndex d := the ?zr],
                         sceneZRangeTemp := (sceneZRangeTemp dp)
                           [t := rangeUnion (sceneZRangeTemp dp ! t) ?zr]\<rparr>)"
  obtain ps1 fl na where c: "collectBatches ft (defaultMaterial ?dp1) (materialQuality ?dp1) t
                (length (batches d)) d [0..<length (batches d)] (passes ?dp1) False False = (ps1, fl, na)"
    by (metis prod_cases3)
  have p: "passes ?dp1 = passes dp" by simp
  have l: "map (\<lambda>p. length (geometryBatches p)) ps1 = map (\<lambda>p. length (geometryBatches p)) (passes dp)"
    using collectBatches_lengths[OF c] p by simp
  show ?thesis
    apply (rule indicesInRange_cong)
    using c l
    by (simp_all add: processGeometry_def QueueDrawableGeometryUpdate_def Let_def
        del: collectBatches.simps)
qed

lemma ProcessVisibleDrawable_indicesInRange:
  assumes "ProcessVisibleDrawable ft rl am t d dp = Some dp'"
  shows "indicesInRange t' i' dp' = indicesInRange t' i' dp"
proof -
  let ?dp1 = "dp\<lparr>isDrawableUpdated := (isDrawableUpdated dp)[drawableIndex d := True]\<rparr>"
  have base: "indicesInRange t' i' ?dp1 = indicesInRange t' i' dp"
    by (rule indicesInRange_cong) simp_all
  have pb: "indicesInRange t' i' (?dp1\<lparr>visibleLightsTemp := PushBack t d (visibleLightsTemp ?dp1)\<rparr>)
            = indicesInRange t' i' dp"
    by (rule indicesInRange_cong) simp_all
  show ?thesis
    using assms base pb processGeometry_indicesInRange[of t' i' ft rl am t d ?dp1]
    by (auto simp: ProcessVisibleDrawable_def Let_def split: if_splits)
qed

lemma ProcessVisibleDrawable_defined:
  "indicesInRange t (drawableIndex d) dp \<Longrightarrow> \<exists>dp'. ProcessVisibleDrawable ft rl am t d dp = Some dp'"
  by (simp add: ProcessVisibleDrawable_def Let_def)

lemma indicesInRange_thread:
  "indicesInRange t i dp \<Longrightarrow> t < length (visibleLightsTemp dp)"
  by (simp add: indicesInRange_def)

lemma processRun_visibleLights:
  assumes "\<forall>(t, d) \<in> set run. indicesInRange t (drawableIndex d) dp"
  shows "\<exists>dp'. processRun (ProcessVisibleDrawable ft rl am) run dp = Some dp' \<and>
           mset (concat (visibleLightsTemp dp')) =
             mset (concat (visibleLightsTemp dp)) + mset (filter isVisibleLight (map snd run)) \<and>
           lightProcessorCache dp' = lightProcessorCache dp"
  using assms
proof (induction run arbitrary: dp)
  case Nil
  then show ?case by simp
next
  case (Cons td run)
  obtain t d where td: "td = (t, d)" by (cases td)
  have ir: "indicesInRange t (drawableIndex d) dp"
    using Cons.prems td by simp
  then obtain dp1 where s: "ProcessVisibleDrawable ft rl am t d dp = Some dp1"
    using ProcessVisibleDrawable_defined by blast
  have "\<forall>(t, d) \<in> set run. indicesInRange t (drawableIndex d) dp1"
    using Cons.prems ProcessVisibleDrawable_indicesInRange[OF s] by auto
  from Cons.IH[OF this] obtain dp' where
    r: "processRun (ProcessVisibleDrawable ft rl am) run dp1 = Some dp'" and
    m: "mset (concat (visibleLightsTemp dp')) =
          mset (concat (visibleLightsTemp dp1)) + mset (filter isVisibleLight (map snd run))" and
    c: "lightProcessorCache dp' = lightProcessorCache dp1"
    by blast
  have m1: "mset (concat (visibleLightsTemp dp1)) =
          mset (concat (visibleLightsTemp dp)) + (if isVisibleLight d then {#d#} else {#})"
    using ProcessVisibleDrawable_visibleLightsTemp[OF s]
      mset_concat_PushBack[OF indicesInRange_thread[OF ir]] by simp
  have c1: "lightProcessorCache dp1 = lightProcessorCache dp"
    using s by (auto simp: ProcessVisibleDrawable_def Let_def processGeometry_def
        QueueDrawableGeometryUpdate_def split: if_splits prod.splits)
  show ?case
    using td s r m m1 c c1 by simp
qed

lemma sorted_by_ID_unique:
  assumes m: "mset xs = mset ys"
    and sx: "sorted_wrt (\<lambda>a b. \<not> compareID b a) xs"
    and sy: "sorted_wrt (\<lambda>a b. \<not> compareID b a) ys"
    and d: "distinct (map ID xs)"
  shows "xs = ys"
proof -
  have mm: "mset (map ID xs) = mset (map ID ys)"
    using m by (metis mset_map)
  have dy: "distinct (map ID ys)"
    using d mm by (metis mset_eq_imp_distinct_iff)
  have le: "(\<lambda>a b. \<not> compareID b a) = (\<lambda>a b. ID a \<le> ID b)"
    by (auto simp: compareID_def fun_eq_iff)
  have "sorted (map ID xs)" "sorted (map ID ys)"
    using sx sy unfolding le by (simp_all add: sorted_map)
  moreover have "set (map ID xs) = set (map ID ys)"
    using mm by (metis set_mset_mset)
  ultimately have eq: "map ID xs = map ID ys"
    using d dy by (metis sorted_distinct_set_unique)
  have "set xs = set ys"
    using m by (metis set_mset_mset)
  moreover have "inj_on ID (set xs)"
    using d by (simp add: distinct_map)
  ultimately have "inj_on ID (set xs \<union> set ys)"
    by simp
  then show ?thesis
    using eq by (simp add: inj_on_map_eq_map)
qed

lemma sorted_by_ID_strict:
  assumes "sorted_wrt (\<lambda>a b. \<not> compareID b a) xs" and "distinct (map ID xs)"
  shows "sorted_wrt (\<lambda>a b. ID a < ID b) xs"
proof -
  have le: "(\<lambda>a b. \<not> compareID b a) = (\<lambda>a b. ID a \<le> ID b)"
    by (auto simp: compareID_def fun_eq_iff)
  have "sorted (map ID xs)"
    using assms(1) unfolding le by (simp add: sorted_map)
  then have "sorted_wrt (<) (map ID xs)"
    using assms(2) by (simp add: strict_sorted_iff)
  then show ?thesis
    by (simp add: sorted_wrt_map)
qed

lemma sortsBy_sort_key: "sortsBy compareID (sort_key ID)"
proof -
  have le: "(\<lambda>a b. \<not> compareID b a) = (\<lambda>a b. ID a \<le> ID b)"
    by (auto simp: compareID_def fun_eq_iff)
  have "sorted_wrt (\<lambda>a b. ID a \<le> ID b) (sort_key ID xs)" for xs :: "Light list"
    using sorted_sort_key[of ID xs] by (simp add: sorted_map)
  then show ?thesis
    unfolding sortsBy_def le by simp
qed

text \<open>
  C9. Take two runs of the parallel loop over the same drawables, with any assignment of
  the drawables to threads and any order of the calls, starting from the same state with
  empty per-thread buffers of lights, and let the visible lights among the drawables have
  pairwise different component IDs. Then \<open>ProcessVisibleDrawables\<close> returns for both, the
  list of visible lights holds every visible light once, is in strictly ascending order of
  the IDs, and is the same list for both runs, as is the list of light processors.
\<close>

theorem ProcessVisibleDrawables_visibleLights:
  assumes srt: "sortsBy compareID sortLights"
    and r1: "\<forall>(t, d) \<in> set run1. indicesInRange t (drawableIndex d) dp"
    and r2: "\<forall>(t, d) \<in> set run2. indicesInRange t (drawableIndex d) dp"
    and same: "mset (map snd run1) = mset (map snd run2)"
    and ids: "distinct (map ID (filter isVisibleLight (map snd run1)))"
    and fresh: "concat (visibleLightsTemp dp) = []"
  shows "\<exists>dp1 dp2.
           ProcessVisibleDrawables sortLights FindTechnique ResetLights ambient run1 dp = Some dp1 \<and>
           ProcessVisibleDrawables sortLights FindTechnique ResetLights ambient run2 dp = Some dp2 \<and>
           mset (visibleLights dp1) = mset (filter isVisibleLight (map snd run1)) \<and>
           sorted_wrt (\<lambda>a b. ID a < ID b) (visibleLights dp1) \<and>
           visibleLights dp2 = visibleLights dp1 \<and>
           lightProcessors dp2 = lightProcessors dp1"
proof -
  let ?f = "ProcessVisibleDrawable FindTechnique ResetLights ambient"
  obtain s1 where p1: "processRun ?f run1 dp = Some s1"
    and m1: "mset (concat (visibleLightsTemp s1)) = mset (filter isVisibleLight (map snd run1))"
    and c1: "lightProcessorCache s1 = lightProcessorCache dp"
    using processRun_visibleLights[OF r1, of FindTechnique ResetLights ambient] fresh by auto
  obtain s2 where p2: "processRun ?f run2 dp = Some s2"
    and m2: "mset (concat (visibleLightsTemp s2)) = mset (filter isVisibleLight (map snd run2))"
    and c2: "lightProcessorCache s2 = lightProcessorCache dp"
    using processRun_visibleLights[OF r2, of FindTechnique ResetLights ambient] fresh by auto
  let ?l1 = "sortLights (concat (visibleLightsTemp s1))"
  let ?l2 = "sortLights (concat (visibleLightsTemp s2))"
  have f: "mset (filter isVisibleLight (map snd run1)) = mset (filter isVisibleLight (map snd run2))"
    using same by (metis mset_filter)
  have ml1: "mset ?l1 = mset (filter isVisibleLight (map snd run1))"
    using srt m1 by (simp add: sortsBy_def)
  have ml2: "mset ?l2 = mset (filter isVisibleLight (map snd run1))"
    using srt m2 f by (simp add: sortsBy_def)
  have s1: "sorted_wrt (\<lambda>a b. \<not> compareID b a) ?l1"
    and s2: "sorted_wrt (\<lambda>a b. \<not> compareID b a) ?l2"
    using srt by (simp_all add: sortsBy_def)
  have "mset (map ID ?l1) = mset (map ID (filter isVisibleLight (map snd run1)))"
    using ml1 by (metis mset_map)
  then have d1: "distinct (map ID ?l1)"
    using ids by (metis mset_eq_imp_distinct_iff)
  have eq: "?l1 = ?l2"
    using sorted_by_ID_unique[OF _ s1 s2 d1] ml1 ml2 by simp
  obtain ps1 ca1 where g1: "getLightProcessors ?l1 (lightProcessorCache s1) = (ps1, ca1)"
    by (cases "getLightProcessors ?l1 (lightProcessorCache s1)") auto
  have g2: "getLightProcessors ?l2 (lightProcessorCache s2) = (ps1, ca1)"
    using g1 eq c1 c2 by simp
  show ?thesis
    using p1 p2 g1 g2 ml1 eq sorted_by_ID_strict[OF s1 d1]
    by (simp add: ProcessVisibleDrawables_def Let_def)
qed

theorem ProcessVisibleDrawables_visibleLights_witness:
  "map_option visibleLights
     (ProcessVisibleDrawables (sort_key ID) exampleTechnique id (\<lambda>useGI d a. a) exampleRun1
        exampleFrame) = Some [visibleLight 3 2, visibleLight 7 0] \<and>
   map_option visibleLights
     (ProcessVisibleDrawables (sort_key ID) exampleTechnique id (\<lambda>useGI d a. a) exampleRun2
        exampleFrame) = Some [visibleLight 3 2, visibleLight 7 0]"
proof -
  have i1: "\<forall>(t, d) \<in> set exampleRun1. indicesInRange t (drawableIndex d) exampleFrame"
    and i2: "\<forall>(t, d) \<in> set exampleRun2. indicesInRange t (drawableIndex d) exampleFrame"
    by (simp_all add: exampleRun1_def exampleRun2_def exampleFrame_indicesInRange
        visibleLight_def farDrawable_def)
  have same: "mset (map snd exampleRun1) = mset (map snd exampleRun2)"
    by (simp add: exampleRun1_def exampleRun2_def)
  have vis: "filter isVisibleLight (map snd exampleRun1) = [visibleLight 7 0, visibleLight 3 2]"
    by (simp add: exampleRun1_def isVisibleLight_examples)
  have ids: "distinct (map ID (filter isVisibleLight (map snd exampleRun1)))"
    by (simp add: vis visibleLight_def)
  have fresh: "concat (visibleLightsTemp exampleFrame) = []"
    by (simp add: exampleFrame_simps)
  from ProcessVisibleDrawables_visibleLights[OF sortsBy_sort_key i1 i2 same ids fresh,
      of exampleTechnique id "\<lambda>useGI d a. a"]
  obtain dp1 dp2 where
    p1: "ProcessVisibleDrawables (sort_key ID) exampleTechnique id (\<lambda>useGI d a. a) exampleRun1
           exampleFrame = Some dp1" and
    p2: "ProcessVisibleDrawables (sort_key ID) exampleTechnique id (\<lambda>useGI d a. a) exampleRun2
           exampleFrame = Some dp2" and
    m: "mset (visibleLights dp1) = mset (filter isVisibleLight (map snd exampleRun1))" and
    s: "sorted_wrt (\<lambda>a b. ID a < ID b) (visibleLights dp1)" and
    e: "visibleLights dp2 = visibleLights dp1"
    by blast
  have "mset (visibleLights dp1) = mset [visibleLight 3 2, visibleLight 7 0]"
    using m vis by simp
  moreover have "sorted_wrt (\<lambda>a b. \<not> compareID b a) [visibleLight 3 2, visibleLight 7 0]"
    by (simp add: compareID_def visibleLight_def)
  moreover have "sorted_wrt (\<lambda>a b. \<not> compareID b a) (visibleLights dp1)"
    using s by (simp add: compareID_def sorted_wrt_iff_nth_less not_less less_imp_le)
  moreover have "distinct (map ID [visibleLight 3 2, visibleLight 7 0])"
    by (simp add: visibleLight_def)
  ultimately have "[visibleLight 3 2, visibleLight 7 0] = visibleLights dp1"
    using sorted_by_ID_unique[of "[visibleLight 3 2, visibleLight 7 0]" "visibleLights dp1"]
    by simp
  then show ?thesis
    using p1 p2 e by simp
qed

section \<open>Round trip through the cache of pipeline states\<close>

text \<open>
  C5. After \<open>GetOrCreatePipelineState\<close> for a key, \<open>GetPipelineState\<close> with the look-up
  part of the same key, on the cache as \<open>GetOrCreatePipelineState\<close> left it and with the
  hashes of geometry, material and pass unchanged, returns the pipeline state that
  \<open>GetOrCreatePipelineState\<close> returned.
\<close>

theorem GetPipelineState_after_GetOrCreatePipelineState:
  "GetPipelineState pipelineStateHash
     (snd (GetOrCreatePipelineState CreateBatchPipelineState pipelineStateHash key ctx c))
     (BatchStateLookupKey.truncate key)
   = fst (GetOrCreatePipelineState CreateBatchPipelineState pipelineStateHash key ctx c)"
  by (auto simp: GetOrCreatePipelineState_def GetPipelineState_def Let_def isCurrent_def
      BatchStateLookupKey.truncate_def split: option.splits)

lemma GetOrCreate_example:
  "fst (GetOrCreatePipelineState (\<lambda>key ctx. Some 42) (\<lambda>object. 100 + object) exampleKey
     \<lparr>ctxPass = 0, subpassIndex = 0\<rparr> Map.empty) = Some 42 \<and>
   GetPipelineState (\<lambda>object. 100 + object) Map.empty (BatchStateLookupKey.truncate exampleKey) = None"
  by (simp add: GetOrCreatePipelineState_def GetPipelineState_def Let_def)

theorem GetPipelineState_after_GetOrCreatePipelineState_witness:
  "GetPipelineState (\<lambda>object. 100 + object)
     (snd (GetOrCreatePipelineState (\<lambda>key ctx. Some 42) (\<lambda>object. 100 + object) exampleKey
        \<lparr>ctxPass = 0, subpassIndex = 0\<rparr> Map.empty))
     (BatchStateLookupKey.truncate exampleKey) = Some 42"
  using GetPipelineState_after_GetOrCreatePipelineState[of "\<lambda>object. 100 + object"
      "\<lambda>key ctx. Some 42" exampleKey "\<lparr>ctxPass = 0, subpassIndex = 0\<rparr>" Map.empty]
    GetOrCreate_example
  by simp

text \<open>After \<open>Invalidate\<close> no key has a current entry.\<close>

lemma GetPipelineState_Invalidate:
  "GetPipelineState pipelineStateHash (Invalidate c) key = None"
  by (simp add: GetPipelineState_def Invalidate_def isCurrent_def split: option.splits)

section \<open>Admission of shadow casters\<close>

text \<open>
  The test of the shadow mask in \<open>CollectShadowBatches\<close> skips a shadow caster only for
  a light mask of 0, and then by the lowest bit of the shadow mask.
\<close>

lemma shadowMaskSkips_iff:
  "shadowMaskSkips shadowMask lightMsk \<longleftrightarrow> lightMsk = 0 \<and> and shadowMask 1 \<noteq> 0"
  by (simp add: shadowMaskSkips_def)

text \<open>A shadow caster beyond its effective maximum shadow distance gets no shadow batch.\<close>

lemma CollectShadowBatches_beyond_shadow_distance:
  "shadowDistanceSkips drawable \<Longrightarrow>
   CollectShadowBatches FindTechnique LookupState defaultMat quality shadowPassIndex lightMsk
     lightHash threadIndex splitIndex (drawable # casters) sb =
   CollectShadowBatches FindTechnique LookupState defaultMat quality shadowPassIndex lightMsk
     lightHash threadIndex splitIndex casters sb"
  by simp

text \<open>
  C3 fails on the code. For the light mask 1, a shadow caster whose shadow mask in its zone
  is 2 shares no bit with the light mask, has no limit on its shadow distance, and still
  gets a shadow batch for its source batch.
\<close>

theorem CollectShadowBatches_shadow_mask:
  "shadowMaskDisjoint (shadowMaskInZone maskedCaster) 1 \<and>
   CollectShadowBatches (\<lambda>m d q. Some (\<lambda>i. if i = 5 then Some 9 else None)) (\<lambda>batch hash. Some 77)
     0 2 5 1 0 0 0 [maskedCaster] \<lparr>shadowBatches = [], batchesDirty = [[]]\<rparr>
   = Some \<lparr>shadowBatches =
             [\<lparr>batchDrawableIndex = 3, batchSourceBatchIndex = 0, batchGeometryType = 0,
               batchDrawable = maskedCaster, batchGeometry = Some 1, batchMaterial = 1,
               batchPass = 9, batchPipelineState = Some 77\<rparr>],
           batchesDirty = [[]]\<rparr>"
  by (simp add: shadowMaskDisjoint_def shadowMaskSkips_def shadowDistanceSkips_def
      effectiveMaxShadowDistance_def maskedCaster_def exampleDrawable_def Let_def)

end
